theory Spec2Isabelle
  imports Main "HOL-Library.Sublist" "HOL-Library.Word"
begin

section \<open>Strings of the source language\<close>

text \<open>
  A source string is modelled as a \<^typ>\<open>string\<close>: a list of 8-bit characters, read as the
  UTF-16 code units U+0000 .. U+00FF, so that \<open>length\<close> is the source's \<open>.length\<close>. The
  helpers below are the string methods and regular-expression classes the program uses,
  restricted to that range; each method takes its receiver first.
\<close>

definition startsWith :: "string \<Rightarrow> string \<Rightarrow> bool" where
  "startsWith s pat = prefix pat s"

definition endsWith :: "string \<Rightarrow> string \<Rightarrow> bool" where
  "endsWith s pat = suffix pat s"

fun includes_str :: "string \<Rightarrow> string \<Rightarrow> bool" where
  "includes_str [] pat = (pat = [])"
| "includes_str (c # cs) pat = (prefix pat (c # cs) \<or> includes_str cs pat)"

text \<open>
  The class \<open>\s\<close> of a regular expression, which is also what \<open>trim\<close> removes: tab, line
  feed, vertical tab, form feed, carriage return, space and no-break space. The line
  terminators (which \<open>.\<close> does not match, and after which \<open>^\<close> matches under the flag
  \<open>m\<close>) are line feed and carriage return.
\<close>

definition isWhiteSpace :: "char \<Rightarrow> bool" where
  "isWhiteSpace c =
     (c \<in> set [CHR 0x09, CHR 0x0A, CHR 0x0B, CHR 0x0C, CHR 0x0D, CHR 0x20, CHR 0xA0])"

definition isLineTerminator :: "char \<Rightarrow> bool" where
  "isLineTerminator c = (c = CHR 0x0A \<or> c = CHR 0x0D)"

text \<open>
  Matching under the flag \<open>i\<close> compares canonical forms. Every literal of the program's
  patterns is ASCII, and without the flag \<open>u\<close> a character outside ASCII never
  canonicalises to an ASCII one, so folding \<open>a..z\<close> onto \<open>A..Z\<close> decides every comparison
  the patterns make.
\<close>

definition canonicalize :: "char \<Rightarrow> char" where
  "canonicalize c =
     (let n = (of_char c :: nat) in if 97 \<le> n \<and> n \<le> 122 then char_of (n - 32) else c)"

fun prefix_ci :: "string \<Rightarrow> string \<Rightarrow> bool" where
  "prefix_ci [] s = True"
| "prefix_ci (p # ps) [] = False"
| "prefix_ci (p # ps) (c # cs) = (canonicalize p = canonicalize c \<and> prefix_ci ps cs)"

text \<open>The offset of the first occurrence of a literal, ignoring case: where \<open>[\s\S]*?\<close>
  followed by that literal stops.\<close>

fun search_ci :: "string \<Rightarrow> string \<Rightarrow> nat option" where
  "search_ci pat [] = (if pat = [] then Some 0 else None)"
| "search_ci pat (c # cs) =
     (if prefix_ci pat (c # cs) then Some 0 else map_option Suc (search_ci pat cs))"

text \<open>
  \<open>String.prototype.replace\<close> with a global pattern. A matcher is given the character
  before the current position (\<open>None\<close> at the start of the input) and the rest of the
  input, and returns the length of the match that starts here, if there is one. The scan
  goes left to right; after a match it resumes behind the match, after a failure (or an
  empty match) it copies one character.
\<close>

type_synonym matcher = "char option \<Rightarrow> string \<Rightarrow> nat option"

fun replace_global :: "matcher \<Rightarrow> (string \<Rightarrow> string) \<Rightarrow> char option \<Rightarrow> string \<Rightarrow> string" where
  "replace_global m r prev [] = []"
| "replace_global m r prev (c # cs) =
     (case m prev (c # cs) of
        None \<Rightarrow> c # replace_global m r (Some c) cs
      | Some 0 \<Rightarrow> r [] @ c # replace_global m r (Some c) cs
      | Some (Suc n) \<Rightarrow>
          r (take (Suc n) (c # cs)) @ replace_global m r (Some ((c # cs) ! n)) (drop n cs))"

definition trim :: "string \<Rightarrow> string" where
  "trim s = rev (dropWhile isWhiteSpace (rev (dropWhile isWhiteSpace s)))"

section \<open>Image input classification (image-input.ts)\<close>

datatype ImageInputType = Url | Base64 | Local

definition detectInputType :: "string \<Rightarrow> ImageInputType" where
  "detectInputType input =
     (if startsWith input ''data:image/'' \<and> includes_str input '';base64,'' then Base64
      else if startsWith input ''http://'' \<or> startsWith input ''https://'' then Url
      else Local)"

section \<open>The thinking-content filter (thinking-filter.ts)\<close>

text \<open>
  The matchers of \<open>THINKING_PATTERNS\<close>. \<open>match_block opens cl\<close> is a pattern
  \<open>(open1|open2|..)[\s\S]*?cl\<close> under the flag \<open>i\<close>: an opening literal here, then the
  shortest text up to the first closing literal. \<open>match_literal\<close> is an alternation of
  literals. \<open>match_label_line\<close> is \<open>^\s*(Reasoning|Thoughts|Analysis):.*$\<close> under the flags
  \<open>i\<close> and \<open>m\<close>: at the start of a line, the white space (line breaks included) up to the
  label, the label and its colon, and the rest of that line.
\<close>

fun match_block :: "string list \<Rightarrow> string \<Rightarrow> string \<Rightarrow> nat option" where
  "match_block [] cl s = None"
| "match_block (opn # opns) cl s =
     (if prefix_ci opn s then
        (case search_ci cl (drop (length opn) s) of
           Some k \<Rightarrow> Some (length opn + k + length cl)
         | None \<Rightarrow> match_block opns cl s)
      else match_block opns cl s)"

fun match_literal :: "string list \<Rightarrow> string \<Rightarrow> nat option" where
  "match_literal [] s = None"
| "match_literal (lit # lits) s =
     (if prefix_ci lit s then Some (length lit) else match_literal lits s)"

definition atLineStart :: "char option \<Rightarrow> bool" where
  "atLineStart prev = (case prev of None \<Rightarrow> True | Some c \<Rightarrow> isLineTerminator c)"

definition match_label_line :: matcher where
  "match_label_line prev s =
     (if atLineStart prev then
        (let ws = takeWhile isWhiteSpace s; r = drop (length ws) s in
         case find (\<lambda>kw. prefix_ci (kw @ '':'') r) [''Reasoning'', ''Thoughts'', ''Analysis''] of
           None \<Rightarrow> None
         | Some kw \<Rightarrow>
             Some (length ws + length kw + 1
                   + length (takeWhile (\<lambda>c. \<not> isLineTerminator c) (drop (length kw + 1) r))))
      else None)"

definition THINKING_PATTERNS :: "matcher list" where
  "THINKING_PATTERNS =
     [\<lambda>prev. match_block [''<thinking>''] ''</thinking>'',
      \<lambda>prev. match_block [''<<analysis>>''] ''<<analysis>>'',
      match_label_line,
      \<lambda>prev. match_block [''```thinking'', ''```reasoning''] ''```'',
      \<lambda>prev. match_block [''[thinking]''] ''[/thinking]'',
      \<lambda>prev. match_literal [''<thinking>'', ''</thinking>'', ''<<analysis>>'']]"

definition remove_matches :: "matcher \<Rightarrow> string \<Rightarrow> string" where
  "remove_matches m s = replace_global m (\<lambda>match. []) None s"

text \<open>The body of the loop over the patterns: one replacement, then one more for as long
  as the last one shortened the text.\<close>

function strip_loop :: "matcher \<Rightarrow> nat \<Rightarrow> string \<Rightarrow> string" where
  "strip_loop m beforeLength cleaned =
     (if length cleaned < beforeLength
      then strip_loop m (length cleaned) (remove_matches m cleaned)
      else cleaned)"
  by pat_completeness auto
termination
  by (relation "measure (\<lambda>(m, beforeLength, cleaned). beforeLength)") auto

declare strip_loop.simps [simp del]

definition strip_pattern :: "string \<Rightarrow> matcher \<Rightarrow> string" where
  "strip_pattern cleaned m = strip_loop m (length cleaned) (remove_matches m cleaned)"

text \<open>
  The final clean-up pattern \<open>\n\s*\n\s*\n\<close>: a line feed followed by a run of white space
  that holds at least two more line feeds; the greedy match ends at the last line feed of
  the run.
\<close>

definition match_blank_lines :: matcher where
  "match_blank_lines prev s =
     (case s of
        [] \<Rightarrow> None
      | c # cs \<Rightarrow>
          if c = CHR 0x0A then
            (let ws = takeWhile isWhiteSpace cs in
             if 2 \<le> count_list ws (CHR 0x0A)
             then Some (1 + (length ws - length (takeWhile (\<lambda>x. x \<noteq> CHR 0x0A) (rev ws))))
             else None)
          else None)"

definition stripThinkingPatterns :: "string \<Rightarrow> string" where
  "stripThinkingPatterns text =
     (if text = [] then []
      else replace_global match_blank_lines (\<lambda>match. [CHR 0x0A, CHR 0x0A]) None
             (trim (foldl strip_pattern text THINKING_PATTERNS)))"

text \<open>The envelope an extractor returns; an absent optional field is \<open>None\<close>. A field
  counts as present in a condition when it is a non-empty string.\<close>

record ModelResponseEnvelope =
  content :: string
  reasoning :: "string option"
  thinking :: "string option"

definition truthy :: "string option \<Rightarrow> bool" where
  "truthy v = (case v of None \<Rightarrow> False | Some s \<Rightarrow> s \<noteq> [])"

definition stripThinking :: "ModelResponseEnvelope \<Rightarrow> string" where
  "stripThinking envelope =
     (let cleaned = stripThinkingPatterns (content envelope) in
      if length cleaned < 10 \<and> (truthy (reasoning envelope) \<or> truthy (thinking envelope))
      then [] else cleaned)"

section \<open>Values, numbers as text\<close>

text \<open>
  The values a detail map holds: the JSON values and \<open>undefined\<close>. An object is the list of
  its own properties in insertion order. Numbers are integers (status codes, counts).
\<close>

datatype json = JUndefined | JNull | JBool bool | JNum int | JStr string | JArr "json list"
  | JObj "(string \<times> json) list"

function show_nat :: "nat \<Rightarrow> string" where
  "show_nat n =
     (if n < 10 then [char_of (48 + n)] else show_nat (n div 10) @ [char_of (48 + n mod 10)])"
  by pat_completeness auto
termination
  by (relation "measure id") auto

declare show_nat.simps [simp del]

definition show_int :: "int \<Rightarrow> string" where
  "show_int i = (if i < 0 then CHR ''-'' # show_nat (nat (- i)) else show_nat (nat i))"

text \<open>\<open>s.split(sep)\<close> for a one-character separator, and \<open>xs.join(sep)\<close>.\<close>

fun split_on :: "char \<Rightarrow> string \<Rightarrow> string list" where
  "split_on sep [] = [[]]"
| "split_on sep (c # cs) =
     (if c = sep then [] # split_on sep cs
      else (case split_on sep cs of [] \<Rightarrow> [[c]] | p # ps \<Rightarrow> (c # p) # ps))"

fun join :: "string \<Rightarrow> string list \<Rightarrow> string" where
  "join sep [] = []"
| "join sep [x] = x"
| "join sep (x # y # ys) = x @ sep @ join sep (y # ys)"

section \<open>Credential masking in error details (errors.ts)\<close>

text \<open>
  The pattern of \<open>sanitizeUrlInString\<close> is
  \<open>[?&](?:key|api_key|apikey|token|access_token|api-key|apikey)=([^&\s]+)\<close> under the flags
  \<open>g\<close> and \<open>i\<close>. \<open>match_param\<close> tries the alternatives in order behind the separator: the
  name, the equals sign, and a non-empty greedy run of value characters.
\<close>

definition CREDENTIAL_PARAMS :: "string list" where
  "CREDENTIAL_PARAMS =
     [''key'', ''api_key'', ''apikey'', ''token'', ''access_token'', ''api-key'', ''apikey'']"

definition valueChars :: "string \<Rightarrow> string" where
  "valueChars v = takeWhile (\<lambda>c. c \<noteq> CHR ''&'' \<and> \<not> isWhiteSpace c) v"

fun match_param :: "string list \<Rightarrow> string \<Rightarrow> nat option" where
  "match_param [] s = None"
| "match_param (nm # nms) s =
     (if prefix_ci nm s then
        (case drop (length nm) s of
           [] \<Rightarrow> match_param nms s
         | e # v \<Rightarrow>
             if e = CHR ''='' \<and> valueChars v \<noteq> []
             then Some (length nm + 1 + length (valueChars v))
             else match_param nms s)
      else match_param nms s)"

definition match_credential :: matcher where
  "match_credential prev s =
     (case s of
        [] \<Rightarrow> None
      | c # cs \<Rightarrow>
          if c = CHR ''?'' \<or> c = CHR ''&'' then map_option Suc (match_param CREDENTIAL_PARAMS cs)
          else None)"

text \<open>The replacement callback: the separator, the text of the match behind it up to the
  first equals sign, and the mask.\<close>

definition mask_param :: "string \<Rightarrow> string" where
  "mask_param match =
     (let separator = (if hd match = CHR ''?'' then ''?'' else ''&'')
      in separator @ hd (split_on (CHR ''='') (tl match)) @ ''=***'')"

definition sanitizeUrlInString :: "string \<Rightarrow> string" where
  "sanitizeUrlInString text = replace_global match_credential mask_param None text"

text \<open>
  \<open>sanitizeDetails\<close> builds a fresh object from the enumerable properties of its argument:
  those of an object, or the indices of an array (an array nested in an array is handed
  to it as an object). \<open>sanitizeValue\<close> is the body of its loop for one property value,
  \<open>sanitizeItem\<close> the callback applied to the items of an array value. The constructor
  only ever passes an object; for the other values the loop has nothing to visit.
\<close>

fun sanitizeDetails :: "json \<Rightarrow> json"
  and sanitizeValue :: "json \<Rightarrow> json"
  and sanitizeItem :: "json \<Rightarrow> json" where
  "sanitizeDetails (JObj kvs) = JObj (map (\<lambda>kv. (fst kv, sanitizeValue (snd kv))) kvs)"
| "sanitizeDetails (JArr xs) = JObj (zip (map show_nat [0..<length xs]) (map sanitizeValue xs))"
| "sanitizeDetails v = JObj []"
| "sanitizeValue (JStr s) = JStr (sanitizeUrlInString s)"
| "sanitizeValue (JArr items) = JArr (map sanitizeItem items)"
| "sanitizeValue (JObj kvs) = sanitizeDetails (JObj kvs)"
| "sanitizeValue v = v"
| "sanitizeItem (JStr s) = JStr (sanitizeUrlInString s)"
| "sanitizeItem (JArr xs) = sanitizeDetails (JArr xs)"
| "sanitizeItem (JObj kvs) = sanitizeDetails (JObj kvs)"
| "sanitizeItem v = v"

section \<open>The error taxonomy (errors.ts)\<close>

text \<open>
  A thrown value is a \<open>VisionMCPError\<close> (its subclass is determined by its code) or an error
  of the platform: a name, a message and, for file-system errors, a \<open>code\<close> property.
\<close>

datatype VisionMCPErrorCode =
  INVALID_INPUT | MODEL_CONFIG_ERROR | IMAGE_LOAD_ERROR | MODEL_API_ERROR | TIMEOUT_ERROR | UNKNOWN_ERROR

datatype js_error =
    VisionMCPError (code: VisionMCPErrorCode) (message: string) (details: "json option")
      (cause: "js_error option")
  | NativeError string string "string option"

definition InvalidInputError :: "string \<Rightarrow> json option \<Rightarrow> js_error option \<Rightarrow> js_error" where
  "InvalidInputError msg dts cs = VisionMCPError INVALID_INPUT (''Invalid input: '' @ msg) dts cs"

definition ModelConfigError :: "string \<Rightarrow> json option \<Rightarrow> js_error option \<Rightarrow> js_error" where
  "ModelConfigError msg dts cs =
     VisionMCPError MODEL_CONFIG_ERROR (''Model configuration error: '' @ msg) dts cs"

definition ImageLoadError :: "string \<Rightarrow> json option \<Rightarrow> js_error option \<Rightarrow> js_error" where
  "ImageLoadError msg dts cs = VisionMCPError IMAGE_LOAD_ERROR (''Failed to load image: '' @ msg) dts cs"

definition ModelAPIError :: "string \<Rightarrow> json option \<Rightarrow> js_error option \<Rightarrow> js_error" where
  "ModelAPIError msg dts cs =
     VisionMCPError MODEL_API_ERROR (''Model API error: '' @ msg)
       (Some (sanitizeDetails (case dts of None \<Rightarrow> JObj [] | Some d \<Rightarrow> d))) cs"

definition TimeoutError :: "string \<Rightarrow> json option \<Rightarrow> js_error option \<Rightarrow> js_error" where
  "TimeoutError msg dts cs = VisionMCPError TIMEOUT_ERROR (''Request timeout: '' @ msg) dts cs"

definition code_name :: "VisionMCPErrorCode \<Rightarrow> string" where
  "code_name c =
     (case c of
        INVALID_INPUT \<Rightarrow> ''INVALID_INPUT'' | MODEL_CONFIG_ERROR \<Rightarrow> ''MODEL_CONFIG_ERROR''
      | IMAGE_LOAD_ERROR \<Rightarrow> ''IMAGE_LOAD_ERROR'' | MODEL_API_ERROR \<Rightarrow> ''MODEL_API_ERROR''
      | TIMEOUT_ERROR \<Rightarrow> ''TIMEOUT_ERROR'' | UNKNOWN_ERROR \<Rightarrow> ''UNKNOWN_ERROR'')"

text \<open>The tests the \<open>catch\<close> blocks make on a caught value: its \<open>code\<close> property, its
  name, its class.\<close>

definition code_property :: "js_error \<Rightarrow> string option" where
  "code_property e =
     (case e of VisionMCPError c m d cs \<Rightarrow> Some (code_name c) | NativeError n m c \<Rightarrow> c)"

definition isAbortError :: "js_error \<Rightarrow> bool" where
  "isAbortError e = (case e of NativeError n m c \<Rightarrow> n = ''AbortError'' | _ \<Rightarrow> False)"

definition isTypeError :: "js_error \<Rightarrow> bool" where
  "isTypeError e = (case e of NativeError n m c \<Rightarrow> n = ''TypeError'' | _ \<Rightarrow> False)"

section \<open>Query strings, for stating what the mask does\<close>

text \<open>
  A URL is rendered from a base and its list of query parameters. A parameter is
  credential-bearing when its name is one of the names of the pattern, in any letter case.
  \<open>mask_params\<close> is the specification: the value of a credential-bearing parameter that has
  one becomes the mask, every name and every other value stays.
\<close>

definition isCredentialParam :: "string \<Rightarrow> bool" where
  "isCredentialParam nm = list_ex (\<lambda>p. length p = length nm \<and> prefix_ci p nm) CREDENTIAL_PARAMS"

fun render_params :: "char \<Rightarrow> (string \<times> string) list \<Rightarrow> string" where
  "render_params sep [] = []"
| "render_params sep ((n, v) # ps) = sep # n @ ''='' @ v @ render_params (CHR ''&'') ps"

definition render_url :: "string \<Rightarrow> (string \<times> string) list \<Rightarrow> string" where
  "render_url base ps = base @ render_params (CHR ''?'') ps"

definition mask_params :: "(string \<times> string) list \<Rightarrow> (string \<times> string) list" where
  "mask_params ps = map (\<lambda>(n, v). (n, if isCredentialParam n \<and> v \<noteq> [] then ''***'' else v)) ps"

text \<open>Well-formed parts: no separator inside a base, a name or a value, no equals sign in a
  name, no white space in a value.\<close>

definition plain :: "string \<Rightarrow> bool" where
  "plain s = list_all (\<lambda>c. c \<noteq> CHR ''?'' \<and> c \<noteq> CHR ''&'') s"

definition param_ok :: "string \<times> string \<Rightarrow> bool" where
  "param_ok p =
     (plain (fst p) \<and> CHR ''='' \<notin> set (fst p) \<and> plain (snd p)
      \<and> list_all (\<lambda>c. \<not> isWhiteSpace c) (snd p))"

text \<open>The strings a value holds, at any depth, in order.\<close>

fun strings_of :: "json \<Rightarrow> string list" where
  "strings_of (JStr s) = [s]"
| "strings_of (JArr xs) = concat (map strings_of xs)"
| "strings_of (JObj kvs) = concat (map (\<lambda>kv. strings_of (snd kv)) kvs)"
| "strings_of v = []"

fun is_container :: "json \<Rightarrow> bool" where
  "is_container (JObj kvs) = True"
| "is_container (JArr xs) = True"
| "is_container v = False"

section \<open>The retry engine (base-adapter.ts)\<close>

text \<open>
  The resolved settings of a process. An absent optional number and one that is not a
  number are both \<open>None\<close>: the engine only asks whether the field is falsy.
\<close>

record ModelConfig =
  model_type :: string
  model_name :: string
  baseUrl :: string
  apiKey :: string
  config_timeout :: "int option"
  config_maxRetries :: "int option"
  thinking_mode :: "string option"

record RetryOptions =
  opt_maxRetries :: "int option"
  opt_timeout :: "int option"

text \<open>\<open>v || d\<close> on an optional number: \<open>d\<close> when \<open>v\<close> is absent, not a number, or 0.\<close>

definition or_number :: "int option \<Rightarrow> int \<Rightarrow> int" where
  "or_number v d = (case v of None \<Rightarrow> d | Some n \<Rightarrow> if n = 0 then d else n)"

definition resolved_maxRetries :: "ModelConfig \<Rightarrow> RetryOptions \<Rightarrow> int" where
  "resolved_maxRetries config opts =
     (case opt_maxRetries opts of Some m \<Rightarrow> m | None \<Rightarrow> or_number (config_maxRetries config) 2)"

definition resolved_timeout :: "ModelConfig \<Rightarrow> RetryOptions \<Rightarrow> int" where
  "resolved_timeout config opts =
     (case opt_timeout opts of Some t \<Rightarrow> t | None \<Rightarrow> or_number (config_timeout config) 60000)"

definition NON_RETRYABLE_STATUS_CODES :: "int list" where
  "NON_RETRYABLE_STATUS_CODES = [400, 401, 403, 404]"

text \<open>The test for a non-retryable failure: a \<open>ModelAPIError\<close> whose details carry a truthy
  \<open>status\<close> that is a member of the set of numbers.\<close>

definition nonRetryable :: "js_error \<Rightarrow> bool" where
  "nonRetryable e =
     (case e of
        VisionMCPError c m (Some (JObj kvs)) cs \<Rightarrow>
          c = MODEL_API_ERROR \<and>
          (case map_of kvs ''status'' of
             Some (JNum status) \<Rightarrow> status \<noteq> 0 \<and> status \<in> set NON_RETRYABLE_STATUS_CODES
           | _ \<Rightarrow> False)
      | _ \<Rightarrow> False)"

text \<open>\<open>{...details, lastError: message}\<close>: the property is overwritten in place when the
  details already have it, added last otherwise.\<close>

fun assign :: "string \<Rightarrow> json \<Rightarrow> (string \<times> json) list \<Rightarrow> (string \<times> json) list" where
  "assign k v [] = [(k, v)]"
| "assign k v ((k', v') # kvs) = (if k' = k then (k, v) # kvs else (k', v') # assign k v kvs)"

text \<open>The error thrown behind the loop, from the last failure.\<close>

definition exhausted :: "int \<Rightarrow> js_error option \<Rightarrow> js_error" where
  "exhausted maxRetries lastError =
     ModelAPIError (''Failed after '' @ show_int (maxRetries + 1) @ '' attempts'')
       (Some (case lastError of
           Some (VisionMCPError c m (Some (JObj kvs)) cs) \<Rightarrow> JObj (assign ''lastError'' (JStr m) kvs)
         | Some (VisionMCPError c m _ cs) \<Rightarrow> JObj [(''lastError'', JStr m)]
         | Some (NativeError n m c) \<Rightarrow> JObj [(''lastError'', JStr m)]
         | None \<Rightarrow> JObj [(''lastError'', JUndefined)]))
       None"

text \<open>
  The wrapped operation is an effect; its outcome at the \<open>k\<close>-th call (from 0) is
  \<open>operation k\<close>, a thrown error or a result. A timeout is the abort of the attempt's
  signal; an operation that lets the abort through throws an error named \<open>AbortError\<close>
  (the Gemini adapter's call catches it and throws a \<open>ModelAPIError\<close> without status in its
  place, which is then the outcome of the call). The engine returns its outcome and the
  trace of what it did: each call of the operation and each backoff wait with its duration
  in milliseconds.
\<close>

datatype event = Attempt nat | Backoff nat

function withRetry_loop ::
  "(nat \<Rightarrow> js_error + 'a) \<Rightarrow> int \<Rightarrow> int \<Rightarrow> nat \<Rightarrow> js_error option \<Rightarrow> (js_error + 'a) \<times> event list" where
  "withRetry_loop operation maxRetries timeout attempt lastError =
     (if int attempt \<le> maxRetries then
        (case operation attempt of
           Inr result \<Rightarrow> (Inr result, [Attempt attempt])
         | Inl error \<Rightarrow>
             if isAbortError error then
               (Inl (TimeoutError (''Request timed out after '' @ show_int timeout @ ''ms'') None None),
                [Attempt attempt])
             else if nonRetryable error then (Inl error, [Attempt attempt])
             else if int attempt = maxRetries then
               (Inl (exhausted maxRetries (Some error)), [Attempt attempt])
             else
               (case withRetry_loop operation maxRetries timeout (attempt + 1) (Some error) of
                  (r, evs) \<Rightarrow> (r, Attempt attempt # Backoff (min (1000 * 2 ^ attempt) 5000) # evs)))
      else (Inl (exhausted maxRetries lastError), []))"
  by pat_completeness auto
termination
  by (relation "measure (\<lambda>(operation, maxRetries, timeout, attempt, lastError).
        nat (maxRetries + 1 - int attempt))") auto

declare withRetry_loop.simps [simp del]

definition withRetry ::
  "ModelConfig \<Rightarrow> RetryOptions \<Rightarrow> (nat \<Rightarrow> js_error + 'a) \<Rightarrow> (js_error + 'a) \<times> event list" where
  "withRetry config opts operation =
     withRetry_loop operation (resolved_maxRetries config opts) (resolved_timeout config opts) 0 None"

text \<open>For stating the contract: the calls in a trace, a failure the engine retries, and
  the trace of attempts \<open>a..<n\<close> each failing and followed by its backoff wait.\<close>

fun isAttempt :: "event \<Rightarrow> bool" where
  "isAttempt (Attempt k) = True"
| "isAttempt (Backoff ms) = False"

definition attempts :: "event list \<Rightarrow> nat" where
  "attempts evs = length (filter isAttempt evs)"

definition retryableFailure :: "js_error + 'a \<Rightarrow> bool" where
  "retryableFailure outcome =
     (case outcome of Inl e \<Rightarrow> \<not> isAbortError e \<and> \<not> nonRetryable e | Inr v \<Rightarrow> False)"

definition failed_attempts :: "nat \<Rightarrow> nat \<Rightarrow> event list" where
  "failed_attempts a n = concat (map (\<lambda>i. [Attempt i, Backoff (min (1000 * 2 ^ i) 5000)]) [a..<n])"

section \<open>Image input normalization (image-input.ts)\<close>

text \<open>
  \<open>toLowerCase\<close> on the code units U+0000 .. U+00FF: the ASCII capitals and the Latin-1
  capitals U+00C0 .. U+00DE (without the multiplication sign U+00D7) move up by 32.
  \<open>lastIndexOf\<close> and \<open>indexOf\<close> return -1 when the character does not occur;
  \<open>substring\<close> treats a negative start as 0.
\<close>

definition toLowerCase_char :: "char \<Rightarrow> char" where
  "toLowerCase_char c =
     (let n = (of_char c :: nat) in
      if (65 \<le> n \<and> n \<le> 90) \<or> (192 \<le> n \<and> n \<le> 222 \<and> n \<noteq> 215) then char_of (n + 32) else c)"

definition toLowerCase :: "string \<Rightarrow> string" where
  "toLowerCase s = map toLowerCase_char s"

definition lastIndexOf :: "string \<Rightarrow> char \<Rightarrow> int" where
  "lastIndexOf s c =
     (if c \<in> set s then int (length s) - 1 - int (length (takeWhile (\<lambda>x. x \<noteq> c) (rev s))) else - 1)"

definition indexOf :: "string \<Rightarrow> char \<Rightarrow> int" where
  "indexOf s c = (if c \<in> set s then int (length (takeWhile (\<lambda>x. x \<noteq> c) s)) else - 1)"

definition substring :: "string \<Rightarrow> int \<Rightarrow> string" where
  "substring s start = drop (nat start) s"

definition SUPPORTED_MIME_TYPES :: "string list" where
  "SUPPORTED_MIME_TYPES = [''image/jpeg'', ''image/jpg'', ''image/png'', ''image/webp'']"

text \<open>The table is looked up by its own four keys (property names inherited from the
  object prototype are not modelled).\<close>

definition EXT_TO_MIME_TYPE :: "(string \<times> string) list" where
  "EXT_TO_MIME_TYPE =
     [(''.jpg'', ''image/jpeg''), (''.jpeg'', ''image/jpeg''), (''.png'', ''image/png''),
      (''.webp'', ''image/webp'')]"

definition inputTypeName :: "ImageInputType \<Rightarrow> string" where
  "inputTypeName t = (case t of Url \<Rightarrow> ''url'' | Base64 \<Rightarrow> ''base64'' | Local \<Rightarrow> ''local'')"

record NormalizedImageInput =
  type :: ImageInputType
  originalInput :: string
  dataUrl :: string
  mimeType :: string

definition getMimeTypeFromFileName :: "string \<Rightarrow> js_error + string" where
  "getMimeTypeFromFileName filename =
     (let ext = substring (toLowerCase filename) (lastIndexOf filename (CHR ''.'')) in
      case map_of EXT_TO_MIME_TYPE ext of
        None \<Rightarrow>
          Inl (InvalidInputError (''Unsupported file extension: '' @ ext)
                 (Some (JObj [(''filename'', JStr filename),
                              (''supportedExtensions'', JArr (map (\<lambda>kv. JStr (fst kv)) EXT_TO_MIME_TYPE))]))
                 None)
      | Some mime \<Rightarrow> Inr mime)"

text \<open>
  The pattern \<open>^data:(image\/[^;]+);base64,\<close> under the flag \<open>i\<close>; the result is the text
  of its group. The greedy class stops at the first semicolon, and no shorter run can be
  followed by one.
\<close>

definition match_data_url :: "string \<Rightarrow> string option" where
  "match_data_url s =
     (if prefix_ci ''data:image/'' s then
        (let sub = takeWhile (\<lambda>c. c \<noteq> CHR '';'') (drop 11 s) in
         if sub \<noteq> [] \<and> prefix_ci '';base64,'' (drop (11 + length sub) s)
         then Some (take (6 + length sub) (drop 5 s)) else None)
      else None)"

definition getMimeTypeFromDataUrl :: "string \<Rightarrow> js_error + string" where
  "getMimeTypeFromDataUrl url =
     (case match_data_url url of
        None \<Rightarrow>
          Inl (InvalidInputError ''Invalid data URL format. Expected: data:image/*;base64,...''
                 (Some (JObj [(''dataUrl'', JStr url)])) None)
      | Some m \<Rightarrow>
          (let mime = toLowerCase m in
           if mime \<in> set SUPPORTED_MIME_TYPES then Inr mime
           else Inl (InvalidInputError (''Unsupported image MIME type: '' @ mime)
                       (Some (JObj [(''supportedTypes'', JArr (map JStr SUPPORTED_MIME_TYPES))])) None)))"

text \<open>
  The platform's URL parser is a parameter: \<open>parseURL s\<close> is the parsed URL, or \<open>None\<close>
  where \<open>new URL(s)\<close> throws its \<open>TypeError\<close>. Of a parsed URL the program reads the
  protocol and the path.
\<close>

record URL =
  protocol :: string
  pathname :: string

definition isImageUrl :: "(string \<Rightarrow> URL option) \<Rightarrow> string \<Rightarrow> bool" where
  "isImageUrl parseURL url =
     (case parseURL url of
        None \<Rightarrow> False
      | Some urlObj \<Rightarrow>
          list_ex (\<lambda>ext. endsWith (toLowerCase (pathname urlObj)) ext) (map fst EXT_TO_MIME_TYPE))"

text \<open>
  Each of the three normalizers is a \<open>try\<close> block and its \<open>catch\<close>: the function with the
  suffix \<open>_try\<close> is the block, whose \<open>Inl\<close> is what it throws, and the function proper
  applies the handler to that.
\<close>

definition normalizeBase64Input_try :: "string \<Rightarrow> js_error + NormalizedImageInput" where
  "normalizeBase64Input_try input =
     (if \<not> includes_str input '','' \<or> length (split_on (CHR '','') input) \<noteq> 2 then
        Inl (InvalidInputError ''Invalid data URL format. Expected: data:image/*;base64,DATA'' None None)
      else
        (case getMimeTypeFromDataUrl input of
           Inl e \<Rightarrow> Inl e
         | Inr mime \<Rightarrow>
             if split_on (CHR '','') input ! 1 = [] then
               Inl (InvalidInputError ''No base64 data found in data URL'' None None)
             else Inr \<lparr>type = Base64, originalInput = input, dataUrl = input, mimeType = mime\<rparr>))"

definition normalizeBase64Input :: "string \<Rightarrow> js_error + NormalizedImageInput" where
  "normalizeBase64Input input =
     (case normalizeBase64Input_try input of
        Inl error \<Rightarrow>
          Inl (ImageLoadError ''Invalid base64 data URL'' (Some (JObj [(''input'', JStr input)])) (Some error))
      | Inr r \<Rightarrow> Inr r)"

text \<open>The URL normalizer also returns the messages it passes to \<open>logger.warn\<close>.\<close>

definition normalizeUrlInput_try ::
  "(string \<Rightarrow> URL option) \<Rightarrow> string \<Rightarrow> bool \<Rightarrow> (js_error + NormalizedImageInput) \<times> string list" where
  "normalizeUrlInput_try parseURL input strictValidation =
     (case parseURL input of
        None \<Rightarrow> (Inl (NativeError ''TypeError'' ''Invalid URL'' (Some ''ERR_INVALID_URL'')), [])
      | Some url \<Rightarrow>
          if \<not> startsWith (protocol url) ''http'' then
            (Inl (InvalidInputError ''Only HTTP/HTTPS URLs are supported''
                    (Some (JObj [(''protocol'', JStr (protocol url))])) None), [])
          else if \<not> isImageUrl parseURL input \<and> strictValidation then
            (Inl (InvalidInputError
                    (''URL does not have a supported image extension (allowed: ''
                       @ join '', '' (map fst EXT_TO_MIME_TYPE) @ '')'')
                    (Some (JObj [(''url'', JStr input)])) None), [])
          else
            (Inr \<lparr>type = Url, originalInput = input, dataUrl = input, mimeType = ''image/*''\<rparr>,
             if \<not> isImageUrl parseURL input
             then [''URL does not appear to point to an image file'',
                   ''Set VISION_STRICT_URL_VALIDATION=true to enforce strict validation'']
             else []))"

definition normalizeUrlInput ::
  "(string \<Rightarrow> URL option) \<Rightarrow> string \<Rightarrow> bool \<Rightarrow> (js_error + NormalizedImageInput) \<times> string list" where
  "normalizeUrlInput parseURL input strictValidation =
     (case normalizeUrlInput_try parseURL input strictValidation of
        (Inl error, warnings) \<Rightarrow>
          (if isTypeError error
           then Inl (InvalidInputError ''Invalid URL format'' (Some (JObj [(''input'', JStr input)])) (Some error))
           else Inl (ImageLoadError ''Failed to process URL input'' (Some (JObj [(''input'', JStr input)]))
                       (Some error)),
           warnings)
      | (Inr r, warnings) \<Rightarrow> (Inr r, warnings))"

text \<open>
  Modelled from the spec: the platform's \<open>Buffer.toString('base64')\<close> is not part of the
  repository; the spec says the bytes are base64-encoded into a data URL. It is modelled
  as the standard base64 alphabet with padding, and \<open>base64_decode\<close> is the strict inverse
  used to state that a payload decodes back.
\<close>

type_synonym byte = "8 word"

definition base64_char :: "nat \<Rightarrow> char" where
  "base64_char i =
     (if i < 26 then char_of (65 + i)
      else if i < 52 then char_of (97 + (i - 26))
      else if i < 62 then char_of (48 + (i - 52))
      else if i = 62 then CHR ''+'' else CHR ''/'')"

fun base64_encode :: "byte list \<Rightarrow> string" where
  "base64_encode [] = []"
| "base64_encode [a] =
     [base64_char (unat a div 4), base64_char (unat a mod 4 * 16), CHR ''='', CHR ''='']"
| "base64_encode [a, b] =
     [base64_char (unat a div 4), base64_char (unat a mod 4 * 16 + unat b div 16),
      base64_char (unat b mod 16 * 4), CHR ''='']"
| "base64_encode (a # b # c # rest) =
     [base64_char (unat a div 4), base64_char (unat a mod 4 * 16 + unat b div 16),
      base64_char (unat b mod 16 * 4 + unat c div 64), base64_char (unat c mod 64)]
     @ base64_encode rest"

definition base64_index :: "char \<Rightarrow> nat option" where
  "base64_index c =
     (let n = (of_char c :: nat) in
      if 65 \<le> n \<and> n \<le> 90 then Some (n - 65)
      else if 97 \<le> n \<and> n \<le> 122 then Some (n - 97 + 26)
      else if 48 \<le> n \<and> n \<le> 57 then Some (n - 48 + 52)
      else if c = CHR ''+'' then Some 62
      else if c = CHR ''/'' then Some 63
      else None)"

fun base64_decode :: "string \<Rightarrow> byte list option" where
  "base64_decode [] = Some []"
| "base64_decode [w, x, y, z] =
     (case (base64_index w, base64_index x) of
        (Some p, Some q) \<Rightarrow>
          if y = CHR ''='' \<and> z = CHR ''='' then
            (if q mod 16 = 0 then Some [of_nat (p * 4 + q div 16)] else None)
          else
            (case base64_index y of
               None \<Rightarrow> None
             | Some r \<Rightarrow>
                 if z = CHR ''='' then
                   (if r mod 4 = 0
                    then Some [of_nat (p * 4 + q div 16), of_nat (q mod 16 * 16 + r div 4)]
                    else None)
                 else
                   (case base64_index z of
                      None \<Rightarrow> None
                    | Some t \<Rightarrow>
                        Some [of_nat (p * 4 + q div 16), of_nat (q mod 16 * 16 + r div 4),
                              of_nat (r mod 4 * 64 + t)]))
      | _ \<Rightarrow> None)"
| "base64_decode (w # x # y # z # rest) =
     (case (base64_index w, base64_index x, base64_index y, base64_index z) of
        (Some p, Some q, Some r, Some t) \<Rightarrow>
          map_option
            (\<lambda>bs. of_nat (p * 4 + q div 16) # of_nat (q mod 16 * 16 + r div 4)
                    # of_nat (r mod 4 * 64 + t) # bs)
            (base64_decode rest)
      | _ \<Rightarrow> None)"
| "base64_decode s = None"

text \<open>The file system is a parameter: \<open>readFile path\<close> is the content of the file or the
  error the read throws.\<close>

definition normalizeLocalInput_try ::
  "(string \<Rightarrow> js_error + byte list) \<Rightarrow> string \<Rightarrow> js_error + NormalizedImageInput" where
  "normalizeLocalInput_try readFile input =
     (case readFile input of
        Inl e \<Rightarrow> Inl e
      | Inr fileBuffer \<Rightarrow>
          if length fileBuffer = 0 then
            Inl (ImageLoadError ''File is empty'' (Some (JObj [(''path'', JStr input)])) None)
          else
            (case getMimeTypeFromFileName input of
               Inl e \<Rightarrow> Inl e
             | Inr mime \<Rightarrow>
                 Inr \<lparr>type = Local, originalInput = input,
                      dataUrl = ''data:'' @ mime @ '';base64,'' @ base64_encode fileBuffer,
                      mimeType = mime\<rparr>))"

definition normalizeLocalInput ::
  "(string \<Rightarrow> js_error + byte list) \<Rightarrow> string \<Rightarrow> js_error + NormalizedImageInput" where
  "normalizeLocalInput readFile input =
     (case normalizeLocalInput_try readFile input of
        Inl error \<Rightarrow>
          if code_property error = Some ''ENOENT'' then
            Inl (ImageLoadError ''File not found'' (Some (JObj [(''path'', JStr input)])) (Some error))
          else if code_property error = Some ''EACCES'' then
            Inl (ImageLoadError ''Permission denied reading file'' (Some (JObj [(''path'', JStr input)]))
                   (Some error))
          else
            Inl (ImageLoadError ''Failed to read local file'' (Some (JObj [(''path'', JStr input)]))
                   (Some error))
      | Inr r \<Rightarrow> Inr r)"

text \<open>The entry point reads the strictness switch from the environment (a map from
  variable names to their values); it rethrows a \<open>VisionMCPError\<close> and wraps anything else.\<close>

definition normalizeImageInput ::
  "(string \<Rightarrow> URL option) \<Rightarrow> (string \<Rightarrow> js_error + byte list) \<Rightarrow> (string \<Rightarrow> string option)
   \<Rightarrow> string \<Rightarrow> js_error + NormalizedImageInput" where
  "normalizeImageInput parseURL readFile env input =
     (let strictValidation = (env ''VISION_STRICT_URL_VALIDATION'' \<noteq> Some ''false'') in
      case (case detectInputType input of
              Base64 \<Rightarrow> normalizeBase64Input input
            | Url \<Rightarrow> fst (normalizeUrlInput parseURL input strictValidation)
            | Local \<Rightarrow> normalizeLocalInput readFile input) of
        Inl error \<Rightarrow>
          (case error of
             VisionMCPError c m d cs \<Rightarrow> Inl error
           | NativeError n m c \<Rightarrow>
               Inl (ImageLoadError ''Failed to normalize image input''
                      (Some (JObj [(''input'', JStr input),
                                   (''type'', JStr (inputTypeName (detectInputType input)))]))
                      (Some error)))
      | Inr r \<Rightarrow> Inr r)"

text \<open>The data-URL parser (data-url-parser.ts); its errors are plain messages.\<close>

record ParsedDataUrl =
  parsed_mimeType :: string
  parsed_data :: string

definition parseDataUrl :: "string \<Rightarrow> string + ParsedDataUrl" where
  "parseDataUrl url =
     (if \<not> startsWith url ''data:'' then Inl (''Invalid data URL: must start with '' @ [CHR 0x22] @ ''data:'' @ [CHR 0x22])
      else if indexOf url (CHR '','') = - 1 then Inl ''Invalid data URL: missing comma separator''
      else
        (let commaIndex = indexOf url (CHR '','');
             metaPart = take (nat commaIndex - 5) (drop 5 url);
             dataPart = substring url (commaIndex + 1);
             metaParts = split_on (CHR '';'') metaPart
         in if dataPart = [] then Inl ''Invalid data URL: empty data part''
            else if \<not> startsWith (hd metaParts) ''image/''
              then Inl (''Invalid MIME type in data URL: '' @ hd metaParts)
            else if ''base64'' \<notin> set metaParts then Inl ''Invalid data URL: missing base64 encoding''
            else Inr \<lparr>parsed_mimeType = hd metaParts, parsed_data = dataPart\<rparr>))"

section \<open>Providers and configuration (provider-registry.ts, model-config.ts)\<close>

text \<open>
  A key validator returns \<open>true\<close> or a message (its type also admits \<open>false\<close>). Of a
  provider definition the configuration loader reads the defaults, the validator and the
  thinking flag. The registry is a map in insertion order; registering a type again
  replaces its definition in place.
\<close>

datatype validation = VBool bool | VMessage string

record ModelDefaults =
  default_baseUrl :: string
  default_modelName :: string
  default_timeout :: int
  default_maxRetries :: int

record ProviderDefinition =
  provider_type :: string
  displayName :: string
  defaults :: ModelDefaults
  validateApiKey :: "(string \<Rightarrow> validation) option"
  enableThinking :: "bool option"

type_synonym registry = "(string \<times> ProviderDefinition) list"

fun register :: "ProviderDefinition \<Rightarrow> registry \<Rightarrow> registry" where
  "register p [] = [(provider_type p, p)]"
| "register p ((k, q) # r) = (if k = provider_type p then (k, p) # r else (k, q) # register p r)"

definition builtin_registry :: registry where
  "builtin_registry =
     foldl (\<lambda>r p. register p r) []
       [\<lparr>provider_type = ''glm'', displayName = ''GLM-4.6V'',
         defaults = \<lparr>default_baseUrl = ''https://open.bigmodel.cn/api/paas/v4'',
                     default_modelName = ''glm-4.6v'', default_timeout = 60000, default_maxRetries = 2\<rparr>,
         validateApiKey = Some (\<lambda>apiKey. if \<not> includes_str apiKey ''.''
                                  then VMessage ''GLM API Key should contain a dot (.)'' else VBool True),
         enableThinking = Some True\<rparr>,
        \<lparr>provider_type = ''siliconflow'', displayName = ''SiliconFlow'',
         defaults = \<lparr>default_baseUrl = ''https://api.siliconflow.cn/v1'',
                     default_modelName = ''Qwen/Qwen2-VL-72B-Instruct'', default_timeout = 60000,
                     default_maxRetries = 2\<rparr>,
         validateApiKey = Some (\<lambda>apiKey. if \<not> startsWith apiKey ''sk-''
                                  then VMessage (''SiliconFlow API Key should start with '' @ [CHR 0x22] @ ''sk-'' @ [CHR 0x22])
                                  else VBool True),
         enableThinking = Some False\<rparr>,
        \<lparr>provider_type = ''modelscope'', displayName = ''ModelScope API-Inference'',
         defaults = \<lparr>default_baseUrl = ''https://api-inference.modelscope.cn/v1'',
                     default_modelName = ''ZhipuAI/GLM-4.6V'', default_timeout = 60000,
                     default_maxRetries = 2\<rparr>,
         validateApiKey = Some (\<lambda>apiKey. if \<not> startsWith apiKey ''ms-''
                                  then VMessage (''ModelScope API Key should start with '' @ [CHR 0x22] @ ''ms-'' @ [CHR 0x22])
                                  else VBool True),
         enableThinking = Some False\<rparr>,
        \<lparr>provider_type = ''openai'', displayName = ''OpenAI'',
         defaults = \<lparr>default_baseUrl = ''https://api.openai.com/v1'', default_modelName = ''gpt-4o'',
                     default_timeout = 60000, default_maxRetries = 2\<rparr>,
         validateApiKey = Some (\<lambda>apiKey. if \<not> startsWith apiKey ''sk-''
                                  then VMessage (''OpenAI API Key should start with '' @ [CHR 0x22] @ ''sk-'' @ [CHR 0x22])
                                  else VBool True),
         enableThinking = Some False\<rparr>,
        \<lparr>provider_type = ''claude'', displayName = ''Anthropic Claude'',
         defaults = \<lparr>default_baseUrl = ''https://api.anthropic.com'',
                     default_modelName = ''claude-3-5-sonnet-20241022'', default_timeout = 60000,
                     default_maxRetries = 2\<rparr>,
         validateApiKey = Some (\<lambda>apiKey. if \<not> startsWith apiKey ''sk-ant-''
                                  then VMessage (''Claude API Key typically starts with '' @ [CHR 0x22] @ ''sk-ant-''
                                         @ [CHR 0x22] @ ''. Proxy providers may use different formats.'')
                                  else VBool True),
         enableThinking = Some False\<rparr>,
        \<lparr>provider_type = ''gemini'', displayName = ''Google Gemini'',
         defaults = \<lparr>default_baseUrl = ''https://generativelanguage.googleapis.com'',
                     default_modelName = ''gemini-2.0-flash-exp'', default_timeout = 60000,
                     default_maxRetries = 2\<rparr>,
         validateApiKey = Some (\<lambda>apiKey. if length apiKey < 10
                                  then VMessage ''Gemini API Key should be at least 10 characters''
                                  else VBool True),
         enableThinking = Some False\<rparr>]"

text \<open>
  \<open>parseInt(s, 10)\<close>: leading white space, an optional sign, then the longest run of
  decimal digits; \<open>None\<close> (not a number) when there is no digit. The result is exact
  (the source rounds beyond 2^53). \<open>or_else v d\<close> is \<open>v || d\<close> on an optional string, and
  \<open>stripTrailingSlash\<close> is \<open>replace(/\/$/, '')\<close>.
\<close>

definition isDigit :: "char \<Rightarrow> bool" where
  "isDigit c = (48 \<le> (of_char c :: nat) \<and> (of_char c :: nat) \<le> 57)"

definition parseInt :: "string \<Rightarrow> int option" where
  "parseInt s =
     (let t = dropWhile isWhiteSpace s;
          neg = (case t of [] \<Rightarrow> False | c # r \<Rightarrow> c = CHR ''-'');
          u = (case t of [] \<Rightarrow> [] | c # r \<Rightarrow> if c = CHR ''-'' \<or> c = CHR ''+'' then r else t);
          ds = takeWhile isDigit u
      in if ds = [] then None
         else Some ((if neg then - 1 else 1) * int (foldl (\<lambda>a d. 10 * a + (of_char d - 48)) 0 ds)))"

definition or_else :: "string option \<Rightarrow> string \<Rightarrow> string" where
  "or_else v d = (case v of None \<Rightarrow> d | Some s \<Rightarrow> if s = [] then d else s)"

definition stripTrailingSlash :: "string \<Rightarrow> string" where
  "stripTrailingSlash s = (if s \<noteq> [] \<and> last s = CHR ''/'' then butlast s else s)"

text \<open>The text \<open>logger.warn\<close> is given for a validation result that is not \<open>true\<close>.\<close>

definition warning_text :: "validation \<Rightarrow> string" where
  "warning_text v = (case v of VMessage msg \<Rightarrow> msg | VBool b \<Rightarrow> (if b then ''true'' else ''false''))"

text \<open>
  \<open>loadModelConfig\<close> reads the environment and the registry and returns the configuration
  or the error it throws, together with the messages it passes to \<open>logger.warn\<close>.
\<close>

definition loadModelConfig ::
  "registry \<Rightarrow> (string \<Rightarrow> string option) \<Rightarrow> (js_error + ModelConfig) \<times> string list" where
  "loadModelConfig reg env =
     (let ty = or_else (env ''VISION_MODEL_TYPE'') [] in
      if ty = [] then
        (Inl (ModelConfigError ''Missing VISION_MODEL_TYPE environment variable'' None None), [])
      else
        (case map_of reg ty of
           None \<Rightarrow>
             (Inl (ModelConfigError
                     (''Unsupported model type: '' @ ty @ ''. Supported types: '' @ join '', '' (map fst reg))
                     None None), [])
         | Some provider \<Rightarrow>
             (let name = or_else (env ''VISION_MODEL_NAME'') (default_modelName (defaults provider));
                  url = or_else (env ''VISION_API_BASE_URL'') (default_baseUrl (defaults provider));
                  key = or_else (env ''VISION_API_KEY'') [];
                  warnings =
                    (case validateApiKey provider of
                       None \<Rightarrow> []
                     | Some validate \<Rightarrow>
                         if validate key \<noteq> VBool True then [warning_text (validate key)] else [])
              in if key = [] then
                   (Inl (ModelConfigError ''Missing VISION_API_KEY environment variable'' None None), [])
                 else
                   (Inr \<lparr>model_type = ty, model_name = name, baseUrl = stripTrailingSlash url,
                         apiKey = key,
                         config_timeout =
                           (if or_else (env ''VISION_API_TIMEOUT'') [] \<noteq> []
                            then parseInt (or_else (env ''VISION_API_TIMEOUT'') [])
                            else Some (default_timeout (defaults provider))),
                         config_maxRetries =
                           (if or_else (env ''VISION_MAX_RETRIES'') [] \<noteq> []
                            then parseInt (or_else (env ''VISION_MAX_RETRIES'') [])
                            else Some (default_maxRetries (defaults provider))),
                         thinking_mode =
                           (if enableThinking provider = Some True then Some ''enabled'' else None)\<rparr>,
                    warnings))))"

section \<open>Lemmas\<close>

subsection \<open>Characters and case-insensitive prefixes\<close>

lemma char_of_eq_iff: "(char_of (n::nat) = c) = (n mod 256 = of_char c)"
  by (metis of_char_of char_of_char)

lemma eq_char_of_iff: "(c = char_of (n::nat)) = (n mod 256 = of_char c)"
  by (metis of_char_of char_of_char)



subsection \<open>A lone thinking block is removed whole\<close>









subsection \<open>The credential mask on query strings and detail maps\<close>

lemma scan_plain:
  "plain b \<Longrightarrow> replace_global match_credential r prev (b @ rest)
     = b @ replace_global match_credential r (if b = [] then prev else Some (last b)) rest"
proof (induction b arbitrary: prev)
  case Nil
  then show ?case by simp
next
  case (Cons c cs)
  then have c: "c \<noteq> CHR ''?''" "c \<noteq> CHR ''&''" and cs: "plain cs" by (auto simp: plain_def)
  have "match_credential prev (c # cs @ rest) = None" using c by (simp add: match_credential_def)
  then show ?case using Cons.IH [OF cs, of "Some c"] by simp
qed

lemma canonicalize_eq_sign: "(canonicalize c = CHR ''='') = (c = CHR ''='')"
  by (auto simp: canonicalize_def Let_def char_of_eq_iff eq_char_of_iff)

lemma name_aligned:
  "CHR ''='' \<notin> set nm \<Longrightarrow> CHR ''='' \<notin> set n \<Longrightarrow> prefix_ci nm (n @ CHR ''='' # t) \<Longrightarrow>
   drop (length nm) (n @ CHR ''='' # t) = CHR ''='' # v \<Longrightarrow>
   length nm = length n \<and> prefix_ci nm n"
proof (induction nm n rule: prefix_ci.induct)
  case (1 s)
  then show ?case by (cases s) auto
next
  case (2 p ps)
  then show ?case using canonicalize_eq_sign [of p] canonicalize_eq_sign [of "CHR ''=''"] by auto
next
  case (3 p ps c cs)
  then show ?case by auto
qed

lemma match_param_Some:
  "match_param nms s = Some k \<Longrightarrow>
   \<exists>nm v. nm \<in> set nms \<and> prefix_ci nm s \<and> drop (length nm) s = CHR ''='' # v
      \<and> valueChars v \<noteq> [] \<and> k = length nm + 1 + length (valueChars v)"
proof (induction nms)
  case Nil then show ?case by simp
next
  case (Cons nm nms)
  show ?case
  proof (cases "prefix_ci nm s \<and> (\<exists>v. drop (length nm) s = CHR ''='' # v \<and> valueChars v \<noteq> [])")
    case True
    then obtain v where v: "drop (length nm) s = CHR ''='' # v" "valueChars v \<noteq> []" by blast
    with True Cons.prems have "k = length nm + 1 + length (valueChars v)"
      by simp
    with True v show ?thesis by auto
  next
    case False
    then have "match_param (nm # nms) s = match_param nms s"
      by (auto split: list.splits)
    with Cons show ?thesis by auto
  qed
qed

lemma match_param_hit:
  "nm \<in> set nms \<Longrightarrow> prefix_ci nm s \<Longrightarrow> drop (length nm) s = CHR ''='' # v \<Longrightarrow> valueChars v \<noteq> [] \<Longrightarrow>
   match_param nms s \<noteq> None"
proof (induction nms)
  case Nil then show ?case by simp
next
  case (Cons a nms)
  then show ?case by (auto split: list.splits)
qed

lemma credential_names_no_eq: "nm \<in> set CREDENTIAL_PARAMS \<Longrightarrow> CHR ''='' \<notin> set nm"
  by (auto simp: CREDENTIAL_PARAMS_def)

lemma prefix_ci_append: "prefix_ci p n \<Longrightarrow> prefix_ci p (n @ t)"
  by (induction p n rule: prefix_ci.induct) auto

lemma match_param_query:
  assumes n: "CHR ''='' \<notin> set n"
  shows "match_param CREDENTIAL_PARAMS (n @ CHR ''='' # t) =
           (if isCredentialParam n \<and> valueChars t \<noteq> [] then Some (length n + 1 + length (valueChars t)) else None)"
proof (cases "match_param CREDENTIAL_PARAMS (n @ CHR ''='' # t)")
  case None
  have "\<not> (isCredentialParam n \<and> valueChars t \<noteq> [])"
  proof
    assume a: "isCredentialParam n \<and> valueChars t \<noteq> []"
    then obtain p where p: "p \<in> set CREDENTIAL_PARAMS" "length p = length n" "prefix_ci p n"
      by (auto simp: isCredentialParam_def list_ex_iff)
    have "match_param CREDENTIAL_PARAMS (n @ CHR ''='' # t) \<noteq> None"
      using match_param_hit [OF p(1) prefix_ci_append [OF p(3)], of "CHR ''='' # t" t] p(2) a by simp
    with None show False by simp
  qed
  with None show ?thesis by simp
next
  case (Some k)
  from match_param_Some [OF Some] obtain nm v where
    nm1: "nm \<in> set CREDENTIAL_PARAMS" and nm2: "prefix_ci nm (n @ CHR ''='' # t)"
    and nm3: "drop (length nm) (n @ CHR ''='' # t) = CHR ''='' # v" and nm4: "valueChars v \<noteq> []"
    and nm5: "k = length nm + 1 + length (valueChars v)"
    by (elim exE conjE)
  from name_aligned [OF credential_names_no_eq [OF nm1] n nm2 nm3]
  have al1: "length nm = length n" and al2: "prefix_ci nm n" by simp_all
  from nm3 al1 have vt: "v = t" by simp
  have cred: "isCredentialParam n"
    unfolding isCredentialParam_def list_ex_iff using nm1 al1 al2 by blast
  from nm4 vt have "valueChars t \<noteq> []" by simp
  with cred Some nm5 al1 vt show ?thesis by simp
qed

lemma split_on_not_Nil: "split_on sep s \<noteq> []"
  by (induction s) (auto split: list.splits)

lemma split_on_head: "sep \<notin> set a \<Longrightarrow> hd (split_on sep (a @ sep # b)) = a"
  using split_on_not_Nil by (induction a) (auto split: list.splits)

lemma render_params_amp:
  "render_params (CHR ''&'') ps = [] \<or> (\<exists>t. render_params (CHR ''&'') ps = CHR ''&'' # t)"
  by (cases ps) auto

lemma valueChars_param:
  assumes "plain v" "list_all (\<lambda>c. \<not> isWhiteSpace c) v"
  shows "valueChars (v @ render_params (CHR ''&'') ps) = v"
proof -
  have all: "\<forall>x\<in>set v. x \<noteq> CHR ''&'' \<and> \<not> isWhiteSpace x"
    using assms by (auto simp: plain_def list_all_iff)
  from render_params_amp [of ps] show ?thesis
  proof
    assume "render_params (CHR ''&'') ps = []"
    then show ?thesis using all by (simp add: valueChars_def)
  next
    assume "\<exists>t. render_params (CHR ''&'') ps = CHR ''&'' # t"
    then obtain t where "render_params (CHR ''&'') ps = CHR ''&'' # t" ..
    then show ?thesis using all by (simp add: valueChars_def takeWhile_tail)
  qed
qed

lemma mask_param_query:
  assumes "sep = CHR ''?'' \<or> sep = CHR ''&''" "CHR ''='' \<notin> set n"
  shows "mask_param (sep # n @ CHR ''='' # v) = sep # n @ ''=***''"
  using assms split_on_head [of "CHR ''=''" n v] by (auto simp: mask_param_def)

lemma replace_global_hit:
  "m prev (c # cs) = Some (Suc n) \<Longrightarrow>
   replace_global m r prev (c # cs)
     = r (take (Suc n) (c # cs)) @ replace_global m r (Some ((c # cs) ! n)) (drop n cs)"
  by simp

lemma scan_params:
  assumes "list_all param_ok ps" and "sep = CHR ''?'' \<or> sep = CHR ''&''"
  shows "replace_global match_credential mask_param prev (render_params sep ps)
           = render_params sep (mask_params ps)"
  using assms
proof (induction ps arbitrary: sep prev)
  case Nil
  then show ?case by (simp add: mask_params_def)
next
  case (Cons p ps)
  obtain n v where p: "p = (n, v)" by (cases p)
  from Cons.prems have pok: "param_ok p" and rest: "list_all param_ok ps" by simp_all
  from pok p have ok: "plain n" "CHR ''='' \<notin> set n" "plain v" "list_all (\<lambda>c. \<not> isWhiteSpace c) v"
    by (simp_all add: param_ok_def)
  let ?rest = "render_params (CHR ''&'') ps"
  have IH: "\<And>q. replace_global match_credential mask_param q ?rest = render_params (CHR ''&'') (mask_params ps)"
    using Cons.IH [OF rest] by simp
  have vc: "valueChars (v @ ?rest) = v" by (rule valueChars_param [OF ok(3,4)])
  have m: "match_credential prev (sep # n @ CHR ''='' # v @ ?rest) =
             (if isCredentialParam n \<and> v \<noteq> [] then Some (Suc (length n + 1 + length v)) else None)"
    using Cons.prems(2) match_param_query [OF ok(2), of "v @ ?rest"] vc
    by (auto simp: match_credential_def)
  show ?case
  proof (cases "isCredentialParam n \<and> v \<noteq> []")
    case True
    have tk: "take (Suc (length n + 1 + length v)) (sep # n @ CHR ''='' # v @ ?rest) = sep # n @ CHR ''='' # v"
      by simp
    have dr: "drop (length n + 1 + length v) (n @ CHR ''='' # v @ ?rest) = ?rest"
      by simp
    from m True have m': "match_credential prev (sep # n @ CHR ''='' # v @ ?rest) = Some (Suc (length n + 1 + length v))"
      by simp
    have "replace_global match_credential mask_param prev (sep # n @ CHR ''='' # v @ ?rest)
          = mask_param (take (Suc (length n + 1 + length v)) (sep # n @ CHR ''='' # v @ ?rest))
            @ replace_global match_credential mask_param
                (Some ((sep # n @ CHR ''='' # v @ ?rest) ! (length n + 1 + length v)))
                (drop (length n + 1 + length v) (n @ CHR ''='' # v @ ?rest))"
      using m' by (rule replace_global_hit [of match_credential prev sep "n @ CHR ''='' # v @ ?rest" "length n + 1 + length v" mask_param])
    also have "\<dots> = mask_param (sep # n @ CHR ''='' # v) @ render_params (CHR ''&'') (mask_params ps)"
      by (simp only: tk dr IH)
    finally have "replace_global match_credential mask_param prev (sep # n @ CHR ''='' # v @ ?rest)
          = mask_param (sep # n @ CHR ''='' # v) @ render_params (CHR ''&'') (mask_params ps)" .
    then show ?thesis
      using True p mask_param_query [OF Cons.prems(2) ok(2), of v]
      by (simp add: mask_params_def)
  next
    case False
    have pl: "plain (n @ CHR ''='' # v)" using ok by (simp add: plain_def)
    have "replace_global match_credential mask_param prev (sep # (n @ CHR ''='' # v) @ ?rest)
          = sep # (n @ CHR ''='' # v) @ render_params (CHR ''&'') (mask_params ps)"
      using m False scan_plain [OF pl, of mask_param "Some sep" ?rest] IH by simp
    then show ?thesis using False p by (simp add: mask_params_def)
  qed
qed

lemma sanitize_query:
  assumes "plain base" "list_all param_ok ps"
  shows "sanitizeUrlInString (render_url base ps) = render_url base (mask_params ps)"
  using scan_plain [OF assms(1), of mask_param None "render_params (CHR ''?'') ps"]
        scan_params [OF assms(2), of "CHR ''?''"]
  by (simp add: sanitizeUrlInString_def render_url_def)

lemma strings_concat_map:
  assumes "\<And>x. x \<in> set xs \<Longrightarrow> strings_of (f x) = map g (strings_of x)"
  shows "concat (map (\<lambda>x. strings_of (f x)) xs) = map g (concat (map strings_of xs))"
  using assms by (induction xs) simp_all

lemma strings_concat_props:
  assumes "\<And>x. x \<in> set kvs \<Longrightarrow> strings_of (f (snd x)) = map g (strings_of (snd x))"
  shows "concat (map (\<lambda>kv. strings_of (f (snd kv))) kvs) = map g (concat (map (\<lambda>kv. strings_of (snd kv)) kvs))"
  using assms by (induction kvs) simp_all

lemma strings_concat_zip:
  "length ks = length vs \<Longrightarrow> concat (map (\<lambda>kv. strings_of (snd kv)) (zip ks vs)) = concat (map strings_of vs)"
  by (induction ks vs rule: list_induct2) simp_all

lemma strings_of_sanitize:
  "is_container d \<longrightarrow> strings_of (sanitizeDetails d) = map sanitizeUrlInString (strings_of d)"
  "strings_of (sanitizeValue v) = map sanitizeUrlInString (strings_of v)"
  "strings_of (sanitizeItem i) = map sanitizeUrlInString (strings_of i)"
proof (induction d and v and i rule: sanitizeDetails_sanitizeValue_sanitizeItem.induct)
  fix kvs :: "(string \<times> json) list"
  assume IH: "\<And>x. x \<in> set kvs \<Longrightarrow> strings_of (sanitizeValue (snd x)) = map sanitizeUrlInString (strings_of (snd x))"
  have "strings_of (sanitizeDetails (JObj kvs)) = concat (map (\<lambda>kv. strings_of (sanitizeValue (snd kv))) kvs)"
    by (simp add: o_def)
  also have "\<dots> = map sanitizeUrlInString (concat (map (\<lambda>kv. strings_of (snd kv)) kvs))"
    using IH by (rule strings_concat_props)
  finally show "is_container (JObj kvs) \<longrightarrow>
      strings_of (sanitizeDetails (JObj kvs)) = map sanitizeUrlInString (strings_of (JObj kvs))"
    by simp
next
  fix xs
  assume IH: "\<And>x. x \<in> set xs \<Longrightarrow> strings_of (sanitizeValue x) = map sanitizeUrlInString (strings_of x)"
  have "strings_of (sanitizeDetails (JArr xs)) = concat (map strings_of (map sanitizeValue xs))"
    by (simp add: strings_concat_zip)
  also have "\<dots> = concat (map (\<lambda>x. strings_of (sanitizeValue x)) xs)"
    by (simp add: o_def)
  also have "\<dots> = map sanitizeUrlInString (concat (map strings_of xs))"
    using IH by (rule strings_concat_map)
  finally show "is_container (JArr xs) \<longrightarrow>
      strings_of (sanitizeDetails (JArr xs)) = map sanitizeUrlInString (strings_of (JArr xs))"
    by simp
next
  fix items
  assume IH: "\<And>x. x \<in> set items \<Longrightarrow> strings_of (sanitizeItem x) = map sanitizeUrlInString (strings_of x)"
  have "strings_of (sanitizeValue (JArr items)) = concat (map (\<lambda>x. strings_of (sanitizeItem x)) items)"
    by (simp add: o_def)
  also have "\<dots> = map sanitizeUrlInString (concat (map strings_of items))"
    using IH by (rule strings_concat_map)
  finally show "strings_of (sanitizeValue (JArr items)) = map sanitizeUrlInString (strings_of (JArr items))"
    by simp
qed simp_all


subsection \<open>The retry loop\<close>

lemma loop_lastError:
  "int a \<le> mr \<Longrightarrow> withRetry_loop op mr t a le = withRetry_loop op mr t a le'"
  by (simp add: withRetry_loop.simps [of op mr t a])

lemma failed_attempts_same [simp]: "failed_attempts n n = []"
  by (simp add: failed_attempts_def)

lemma failed_attempts_step:
  "a < n \<Longrightarrow> failed_attempts a n = Attempt a # Backoff (min (1000 * 2 ^ a) 5000) # failed_attempts (Suc a) n"
  by (simp add: failed_attempts_def upt_conv_Cons)

lemma loop_retry_step:
  assumes "retryableFailure (op a)" "int a < mr"
  shows "withRetry_loop op mr t a le =
           (fst (withRetry_loop op mr t (Suc a) le'),
            Attempt a # Backoff (min (1000 * 2 ^ a) 5000) # snd (withRetry_loop op mr t (Suc a) le'))"
proof -
  from assms(1) obtain e where e: "op a = Inl e" "\<not> isAbortError e" "\<not> nonRetryable e"
    by (auto simp: retryableFailure_def split: sum.splits)
  have "withRetry_loop op mr t (Suc a) (Some e) = withRetry_loop op mr t (Suc a) le'"
    using assms(2) by (intro loop_lastError) simp
  then show ?thesis
    using e assms(2) by (simp add: withRetry_loop.simps [of op mr t a] split: prod.splits)
qed

lemma loop_retry_prefix:
  assumes "\<forall>i. a \<le> i \<and> i < n \<longrightarrow> retryableFailure (op i)" "a \<le> n" "int n \<le> mr"
  shows "withRetry_loop op mr t a le =
           (fst (withRetry_loop op mr t n le), failed_attempts a n @ snd (withRetry_loop op mr t n le))"
  using assms
proof (induction "n - a" arbitrary: a le)
  case 0
  then show ?case by simp
next
  case (Suc k)
  then have lt: "a < n" and r: "retryableFailure (op a)" by auto
  have IH: "withRetry_loop op mr t (Suc a) le =
           (fst (withRetry_loop op mr t n le), failed_attempts (Suc a) n @ snd (withRetry_loop op mr t n le))"
    using Suc.hyps(1) [of "Suc a" le] Suc.hyps(2) Suc.prems by auto
  have "int a < mr" using lt Suc.prems(3) by simp
  then have "withRetry_loop op mr t a le =
           (fst (withRetry_loop op mr t (Suc a) le),
            Attempt a # Backoff (min (1000 * 2 ^ a) 5000) # snd (withRetry_loop op mr t (Suc a) le))"
    using r by (intro loop_retry_step)
  with IH show ?case
    by (simp add: failed_attempts_step [OF lt])
qed

lemma attempts_bound: "attempts (snd (withRetry_loop op mr t a le)) \<le> nat (mr + 1 - int a)"
proof (induction op mr t a le rule: withRetry_loop.induct)
  case (1 op mr t a le)
  show ?case
  proof (cases "int a \<le> mr")
    case False
    then show ?thesis by (simp add: withRetry_loop.simps [of op mr t a] attempts_def)
  next
    case True
    show ?thesis
    proof (cases "op a")
      case (Inr v)
      then show ?thesis using True by (simp add: withRetry_loop.simps [of op mr t a] attempts_def)
    next
      case (Inl e)
      show ?thesis
      proof (cases "isAbortError e \<or> nonRetryable e \<or> int a = mr")
        case True
        then show ?thesis using \<open>int a \<le> mr\<close> Inl
          by (auto simp: withRetry_loop.simps [of op mr t a] attempts_def)
      next
        case False
        then have IH: "attempts (snd (withRetry_loop op mr t (a + 1) (Some e))) \<le> nat (mr + 1 - int (a + 1))"
          using 1 [OF True Inl] by simp
        then show ?thesis using False True Inl
          by (auto simp: withRetry_loop.simps [of op mr t a] attempts_def split: prod.splits)
      qed
    qed
  qed
qed

lemma loop_success:
  assumes "\<forall>i<n. retryableFailure (op i)" "int n \<le> mr" "op n = Inr v"
  shows "withRetry_loop op mr t 0 None = (Inr v, failed_attempts 0 n @ [Attempt n])"
proof -
  have "withRetry_loop op mr t n None = (Inr v, [Attempt n])"
    using assms(2,3) by (simp add: withRetry_loop.simps [of op mr t n])
  with loop_retry_prefix [of 0 n op mr t None] assms show ?thesis by simp
qed

lemma loop_timeout:
  assumes "\<forall>i<n. retryableFailure (op i)" "int n \<le> mr" "op n = Inl e" "isAbortError e"
  shows "withRetry_loop op mr t 0 None =
           (Inl (TimeoutError (''Request timed out after '' @ show_int t @ ''ms'') None None),
            failed_attempts 0 n @ [Attempt n])"
proof -
  have "withRetry_loop op mr t n None =
          (Inl (TimeoutError (''Request timed out after '' @ show_int t @ ''ms'') None None), [Attempt n])"
    using assms(2,3,4) by (simp add: withRetry_loop.simps [of op mr t n])
  with loop_retry_prefix [of 0 n op mr t None] assms show ?thesis by simp
qed

lemma loop_non_retryable:
  assumes "\<forall>i<n. retryableFailure (op i)" "int n \<le> mr" "op n = Inl e" "nonRetryable e"
  shows "withRetry_loop op mr t 0 None = (Inl e, failed_attempts 0 n @ [Attempt n])"
proof -
  have "\<not> isAbortError e" using assms(4)
    by (auto simp: isAbortError_def nonRetryable_def split: js_error.splits)
  then have "withRetry_loop op mr t n None = (Inl e, [Attempt n])"
    using assms(2,3,4) by (simp add: withRetry_loop.simps [of op mr t n])
  with loop_retry_prefix [of 0 n op mr t None] assms show ?thesis by simp
qed

lemma loop_exhausted:
  assumes "\<forall>i\<le>n. retryableFailure (op i)" "int n = mr" "op n = Inl e"
  shows "withRetry_loop op mr t 0 None = (Inl (exhausted mr (Some e)), failed_attempts 0 n @ [Attempt n])"
proof -
  from assms(1,3) have "\<not> isAbortError e" "\<not> nonRetryable e"
    by (auto simp: retryableFailure_def split: sum.splits dest: spec [of _ n])
  then have "withRetry_loop op mr t n None = (Inl (exhausted mr (Some e)), [Attempt n])"
    using assms(2,3) by (simp add: withRetry_loop.simps [of op mr t n])
  with loop_retry_prefix [of 0 n op mr t None] assms show ?thesis by simp
qed

lemma status_non_retryable:
  assumes "map_of kvs ''status'' = Some (JNum status)" "status \<in> {400, 401, 403, 404}"
  shows "nonRetryable (VisionMCPError MODEL_API_ERROR m (Some (JObj kvs)) cs)"
  using assms by (auto simp: nonRetryable_def NON_RETRYABLE_STATUS_CODES_def)


lemma attempts_failed_attempts: "a \<le> n \<Longrightarrow> attempts (failed_attempts a n @ [Attempt n]) = Suc (n - a)"
proof (induction "n - a" arbitrary: a)
  case 0
  then show ?case by (simp add: attempts_def)
next
  case (Suc k)
  then have lt: "a < n" by simp
  from Suc.hyps(1) [of "Suc a"] Suc.hyps(2) Suc.prems
  have "attempts (failed_attempts (Suc a) n @ [Attempt n]) = Suc (n - Suc a)" by simp
  then show ?case using lt by (simp add: failed_attempts_step [OF lt] attempts_def)
qed

lemma loop_first_event:
  assumes "int a \<le> mr"
  shows "\<exists>rest. snd (withRetry_loop op mr t a le) = Attempt a # rest"
  using assms
  by (subst withRetry_loop.simps) (auto split: sum.splits prod.splits)

lemma failed_attempts_Suc:
  "a \<le> k \<Longrightarrow>
   failed_attempts a (Suc k) = failed_attempts a k @ [Attempt k, Backoff (min (1000 * 2 ^ k) 5000)]"
  by (simp add: failed_attempts_def)

lemma loop_retry_next:
  assumes "\<forall>i\<le>k. retryableFailure (op i)" "int k < mr"
  shows "\<exists>rest. snd (withRetry_loop op mr t 0 None)
           = failed_attempts 0 k @ Attempt k # Backoff (min (1000 * 2 ^ k) 5000) # Attempt (Suc k) # rest"
proof -
  from assms(2) have le: "int (Suc k) \<le> mr" by simp
  from assms(1) have r: "\<forall>i. 0 \<le> i \<and> i < Suc k \<longrightarrow> retryableFailure (op i)" by simp
  have "withRetry_loop op mr t 0 None =
          (fst (withRetry_loop op mr t (Suc k) None),
           failed_attempts 0 (Suc k) @ snd (withRetry_loop op mr t (Suc k) None))"
    using r _ le by (rule loop_retry_prefix) simp
  moreover obtain rest where "snd (withRetry_loop op mr t (Suc k) None) = Attempt (Suc k) # rest"
    using loop_first_event [OF le] by blast
  ultimately show ?thesis by (simp add: failed_attempts_Suc)
qed

subsection \<open>Base64 decodes what it encodes\<close>

lemma base64_index_char: "i < 64 \<Longrightarrow> base64_index (base64_char i) = Some i"
  by (auto simp: base64_index_def base64_char_def Let_def of_char_of)

lemma base64_char_not_pad: "i < 64 \<Longrightarrow> base64_char i \<noteq> CHR ''=''"
  by (auto simp: base64_char_def char_of_eq_iff)

lemma base64_encode_Nil_iff: "(base64_encode bs = []) = (bs = [])"
  by (cases bs rule: base64_encode.cases) simp_all

lemma byte_lt: "unat (a :: byte) < 256"
  using unsigned_less [of a, where 'a = nat] by simp

lemma pack_lt: "x < m \<Longrightarrow> y < k \<Longrightarrow> x * k + y < m * (k::nat)"
proof -
  assume x: "x < m" and y: "y < k"
  have "x * k + y < x * k + k" using y by simp
  also have "\<dots> = Suc x * k" by simp
  also have "\<dots> \<le> m * k" using x by (intro mult_le_mono1) simp
  finally show ?thesis .
qed

lemma hi6: "a < 256 \<Longrightarrow> a div 4 < (64::nat)"
  by (simp add: less_mult_imp_div_less)

lemma hi4: "b < 256 \<Longrightarrow> b div 16 < (16::nat)"
  by (simp add: less_mult_imp_div_less)

lemma hi2: "c < 256 \<Longrightarrow> c div 64 < (4::nat)"
  by (simp add: less_mult_imp_div_less)

lemma sextet2: "b < 256 \<Longrightarrow> a mod 4 * 16 + b div 16 < (64::nat)"
  using pack_lt [of "a mod 4" 4 "b div 16" 16] hi4 [of b] by simp

lemma sextet3: "c < 256 \<Longrightarrow> b mod 16 * 4 + c div 64 < (64::nat)"
  using pack_lt [of "b mod 16" 16 "c div 64" 4] hi2 [of c] by simp

lemma sextet2': "a mod 4 * 16 < (64::nat)"
  using pack_lt [of "a mod 4" 4 0 16] by simp

lemma sextet3': "b mod 16 * 4 < (64::nat)"
  using pack_lt [of "b mod 16" 16 0 4] by simp

lemma decode_pad2:
  assumes "base64_index w = Some p" "base64_index x = Some q" "q mod 16 = 0"
  shows "base64_decode [w, x, CHR ''='', CHR ''=''] = Some [of_nat (p * 4 + q div 16)]"
  using assms by simp

lemma decode_pad1:
  assumes "base64_index w = Some p" "base64_index x = Some q" "base64_index y = Some r"
    "y \<noteq> CHR ''=''" "r mod 4 = 0"
  shows "base64_decode [w, x, y, CHR ''='']
         = Some [of_nat (p * 4 + q div 16), of_nat (q mod 16 * 16 + r div 4)]"
  using assms by simp

lemma decode_full:
  assumes "base64_index w = Some p" "base64_index x = Some q" "base64_index y = Some r"
    "base64_index z = Some t" "y \<noteq> CHR ''=''" "z \<noteq> CHR ''=''"
  shows "base64_decode [w, x, y, z]
         = Some [of_nat (p * 4 + q div 16), of_nat (q mod 16 * 16 + r div 4), of_nat (r mod 4 * 64 + t)]"
  using assms by simp

lemma decode_more:
  assumes "base64_index w = Some p" "base64_index x = Some q" "base64_index y = Some r"
    "base64_index z = Some t"
  shows "base64_decode (w # x # y # z # c # cs)
         = map_option (\<lambda>bs. of_nat (p * 4 + q div 16) # of_nat (q mod 16 * 16 + r div 4)
                             # of_nat (r mod 4 * 64 + t) # bs)
             (base64_decode (c # cs))"
  using assms by simp

lemma unpack:
  fixes a b c :: nat
  assumes "b < 256" "c < 256"
  shows "a div 4 * 4 + (a mod 4 * 16) div 16 = a"
    and "(a mod 4 * 16) mod 16 = 0"
    and "a div 4 * 4 + (a mod 4 * 16 + b div 16) div 16 = a"
    and "(a mod 4 * 16 + b div 16) mod 16 * 16 + (b mod 16 * 4) div 4 = b"
    and "(b mod 16 * 4) mod 4 = 0"
    and "(a mod 4 * 16 + b div 16) mod 16 * 16 + (b mod 16 * 4 + c div 64) div 4 = b"
    and "(b mod 16 * 4 + c div 64) mod 4 * 64 + c mod 64 = c"
proof -
  have d: "(a mod 4 * 16 + b div 16) div 16 = a mod 4" "(a mod 4 * 16 + b div 16) mod 16 = b div 16"
    using hi4 [OF assms(1)] by simp_all
  have d': "(b mod 16 * 4 + c div 64) div 4 = b mod 16" "(b mod 16 * 4 + c div 64) mod 4 = c div 64"
    using hi2 [OF assms(2)] by simp_all
  have e: "a div 4 * 4 + a mod 4 = a" "b div 16 * 16 + b mod 16 = b" "c div 64 * 64 + c mod 64 = c"
    by simp_all
  show "a div 4 * 4 + (a mod 4 * 16) div 16 = a" by simp
  show "(a mod 4 * 16) mod 16 = 0" by simp
  show "a div 4 * 4 + (a mod 4 * 16 + b div 16) div 16 = a" by (simp only: d e)
  show "(a mod 4 * 16 + b div 16) mod 16 * 16 + (b mod 16 * 4) div 4 = b" using e(2) d(2) by simp
  show "(b mod 16 * 4) mod 4 = 0" by simp
  show "(a mod 4 * 16 + b div 16) mod 16 * 16 + (b mod 16 * 4 + c div 64) div 4 = b" by (simp only: d d' e)
  show "(b mod 16 * 4 + c div 64) mod 4 * 64 + c mod 64 = c" by (simp only: d' e)
qed

lemma base64_roundtrip: "base64_decode (base64_encode bs) = Some bs"
proof (induction bs rule: base64_encode.induct)
  case 1
  show ?case by simp
next
  case (2 a)
  have "base64_decode (base64_encode [a])
        = Some [of_nat (unat a div 4 * 4 + (unat a mod 4 * 16) div 16)]"
    unfolding base64_encode.simps
    by (rule decode_pad2 [OF base64_index_char [OF hi6 [OF byte_lt]] base64_index_char [OF sextet2']
          unpack(2) [OF byte_lt byte_lt]])
  also have "\<dots> = Some [a]"
    by (simp only: unpack(1) [OF byte_lt [of a] byte_lt [of a]] of_nat_unat ucast_id)
  finally show ?case .
next
  case (3 a b)
  have "base64_decode (base64_encode [a, b])
        = Some [of_nat (unat a div 4 * 4 + (unat a mod 4 * 16 + unat b div 16) div 16),
                of_nat ((unat a mod 4 * 16 + unat b div 16) mod 16 * 16 + (unat b mod 16 * 4) div 4)]"
    unfolding base64_encode.simps
    by (rule decode_pad1 [OF base64_index_char [OF hi6 [OF byte_lt]]
          base64_index_char [OF sextet2 [OF byte_lt]] base64_index_char [OF sextet3']
          base64_char_not_pad [OF sextet3'] unpack(5) [OF byte_lt byte_lt]])
  also have "\<dots> = Some [a, b]"
    by (simp only: unpack(3,4) [OF byte_lt [of b] byte_lt [of b]] of_nat_unat ucast_id)
  finally show ?case .
next
  case (4 a b c rest)
  let ?p = "unat a div 4" and ?q = "unat a mod 4 * 16 + unat b div 16"
    and ?r = "unat b mod 16 * 4 + unat c div 64" and ?t = "unat c mod 64"
  have ip: "base64_index (base64_char ?p) = Some ?p" by (rule base64_index_char [OF hi6 [OF byte_lt]])
  have iq: "base64_index (base64_char ?q) = Some ?q" by (rule base64_index_char [OF sextet2 [OF byte_lt]])
  have ir: "base64_index (base64_char ?r) = Some ?r" by (rule base64_index_char [OF sextet3 [OF byte_lt]])
  have it: "base64_index (base64_char ?t) = Some ?t" by (rule base64_index_char) simp
  have nr: "base64_char ?r \<noteq> CHR ''=''" by (rule base64_char_not_pad [OF sextet3 [OF byte_lt]])
  have nt: "base64_char ?t \<noteq> CHR ''=''" by (rule base64_char_not_pad) simp
  have bytes: "of_nat (?p * 4 + ?q div 16) = a" "of_nat (?q mod 16 * 16 + ?r div 4) = b"
    "of_nat (?r mod 4 * 64 + ?t) = c"
    by (simp_all only: unpack(3,6,7) [OF byte_lt [of b] byte_lt [of c]] of_nat_unat ucast_id)
  show ?case
  proof (cases "base64_encode rest")
    case Nil
    then have "rest = []" by (simp add: base64_encode_Nil_iff)
    have "base64_decode (base64_encode (a # b # c # rest))
          = Some [of_nat (?p * 4 + ?q div 16), of_nat (?q mod 16 * 16 + ?r div 4), of_nat (?r mod 4 * 64 + ?t)]"
      unfolding base64_encode.simps Nil append_Nil2
      by (rule decode_full [OF ip iq ir it nr nt])
    then show ?thesis by (simp only: bytes \<open>rest = []\<close>)
  next
    case (Cons x xs)
    have "base64_decode (base64_encode (a # b # c # rest))
          = map_option (\<lambda>bs. of_nat (?p * 4 + ?q div 16) # of_nat (?q mod 16 * 16 + ?r div 4)
                             # of_nat (?r mod 4 * 64 + ?t) # bs)
             (base64_decode (x # xs))"
      unfolding base64_encode.simps Cons append.simps
      by (rule decode_more [OF ip iq ir it])
    also have "base64_decode (x # xs) = Some rest" using 4 Cons by simp
    finally show ?thesis by (simp only: bytes option.map)
  qed
qed


subsection \<open>Local files with a supported extension\<close>

lemma toLowerCase_char_dot: "(toLowerCase_char c = CHR ''.'') = (c = CHR ''.'')"
proof -
  have "(of_char c :: nat) < 256" by simp
  then show ?thesis
    by (auto simp: toLowerCase_char_def Let_def char_of_eq_iff)
qed

lemma length_takeWhile_map:
  assumes "\<And>x. (f x = c) = (x = c)"
  shows "length (takeWhile (\<lambda>x. x \<noteq> c) (map f xs)) = length (takeWhile (\<lambda>x. x \<noteq> c) xs)"
  using assms by (induction xs) auto

lemma lastIndexOf_toLowerCase: "lastIndexOf (toLowerCase s) (CHR ''.'') = lastIndexOf s (CHR ''.'')"
proof -
  have m: "(CHR ''.'' \<in> set (map toLowerCase_char s)) = (CHR ''.'' \<in> set s)"
  proof (induction s)
    case Nil
    show ?case by simp
  next
    case (Cons x xs)
    have "(CHR ''.'' = toLowerCase_char x) = (CHR ''.'' = x)"
      using toLowerCase_char_dot [of x] by (simp add: eq_commute)
    with Cons show ?case by simp
  qed
  have "length (takeWhile (\<lambda>x. x \<noteq> CHR ''.'') (map toLowerCase_char (rev s)))
        = length (takeWhile (\<lambda>x. x \<noteq> CHR ''.'') (rev s))"
    by (rule length_takeWhile_map) (rule toLowerCase_char_dot)
  then show ?thesis using m by (simp add: lastIndexOf_def toLowerCase_def rev_map)
qed

lemma lastIndexOf_append:
  assumes "c \<notin> set e"
  shows "lastIndexOf (stem @ c # e) c = int (length stem)"
proof -
  have "takeWhile (\<lambda>x. x \<noteq> c) (rev e @ c # rev stem) = rev e"
    using assms by (subst takeWhile_append2) auto
  then show ?thesis by (simp add: lastIndexOf_def)
qed

lemma extension_shape:
  assumes "map_of EXT_TO_MIME_TYPE ext = Some mime"
  shows "\<exists>e. ext = CHR ''.'' # e \<and> CHR ''.'' \<notin> set e"
  using assms by (auto simp: EXT_TO_MIME_TYPE_def split: if_splits)

lemma getMimeTypeFromFileName_ext:
  assumes "map_of EXT_TO_MIME_TYPE ext = Some mime" "endsWith (toLowerCase filename) ext"
  shows "getMimeTypeFromFileName filename = Inr mime"
proof -
  from assms(2) obtain stem where stem: "toLowerCase filename = stem @ ext"
    by (auto simp: endsWith_def suffix_def)
  from extension_shape [OF assms(1)] obtain e where e: "ext = CHR ''.'' # e" "CHR ''.'' \<notin> set e"
    by blast
  have "lastIndexOf filename (CHR ''.'') = lastIndexOf (stem @ CHR ''.'' # e) (CHR ''.'')"
    using lastIndexOf_toLowerCase [of filename] stem e by simp
  also have "\<dots> = int (length stem)" by (rule lastIndexOf_append [OF e(2)])
  finally have "substring (toLowerCase filename) (lastIndexOf filename (CHR ''.'')) = ext"
    using stem by (simp add: substring_def)
  then show ?thesis using assms(1) by (simp add: getMimeTypeFromFileName_def)
qed

lemma mime_values:
  assumes "map_of EXT_TO_MIME_TYPE ext = Some mime"
  shows "mime = ''image/jpeg'' \<or> mime = ''image/png'' \<or> mime = ''image/webp''"
  using assms by (auto simp: EXT_TO_MIME_TYPE_def split: if_splits)

lemma parseDataUrl_built:
  assumes "mime = ''image/jpeg'' \<or> mime = ''image/png'' \<or> mime = ''image/webp''" "payload \<noteq> []"
  shows "parseDataUrl (''data:'' @ mime @ '';base64,'' @ payload)
         = Inr \<lparr>parsed_mimeType = mime, parsed_data = payload\<rparr>"
  using assms
  by (auto simp: parseDataUrl_def startsWith_def indexOf_def substring_def Let_def)

lemma normalizeLocalInput_ok:
  assumes "readFile input = Inr bytes" "bytes \<noteq> []" "map_of EXT_TO_MIME_TYPE ext = Some mime"
    "endsWith (toLowerCase input) ext"
  shows "normalizeLocalInput readFile input
         = Inr \<lparr>type = Local, originalInput = input,
                dataUrl = ''data:'' @ mime @ '';base64,'' @ base64_encode bytes, mimeType = mime\<rparr>"
  using assms getMimeTypeFromFileName_ext [OF assms(3,4)]
  by (simp add: normalizeLocalInput_def normalizeLocalInput_try_def)


section \<open>Claims\<close>




text \<open>
  C2. For every envelope, if the pattern-stripped content is shorter than 10 characters
  and the envelope has a non-empty reasoning or thinking field, \<open>stripThinking\<close> returns the
  empty string, and so neither the reasoning nor the thinking text.
\<close>

theorem stripThinking_fail_closed:
  assumes "length (stripThinkingPatterns (content envelope)) < 10"
    and "truthy (reasoning envelope) \<or> truthy (thinking envelope)"
  shows "stripThinking envelope = []
         \<and> (truthy (reasoning envelope) \<longrightarrow> Some (stripThinking envelope) \<noteq> reasoning envelope)
         \<and> (truthy (thinking envelope) \<longrightarrow> Some (stripThinking envelope) \<noteq> thinking envelope)"
proof -
  from assms have "stripThinking envelope = []"
    by (simp add: stripThinking_def Let_def)
  then show ?thesis
    by (auto simp: truthy_def split: option.splits)
qed

theorem stripThinking_fail_closed_witness:
  "length (stripThinkingPatterns (content \<lparr>content = ''<thinking>x</thinking>ok'',
             reasoning = Some ''the hidden chain of thought'', thinking = None\<rparr>)) < 10
   \<and> truthy (reasoning \<lparr>content = ''<thinking>x</thinking>ok'',
             reasoning = Some ''the hidden chain of thought'', thinking = None\<rparr>)
   \<and> stripThinking \<lparr>content = ''<thinking>x</thinking>ok'',
             reasoning = Some ''the hidden chain of thought'', thinking = None\<rparr> = []"
proof -
  let ?e = "\<lparr>content = ''<thinking>x</thinking>ok'',
             reasoning = Some ''the hidden chain of thought'', thinking = None\<rparr>"
  have a: "length (stripThinkingPatterns (content ?e)) < 10" by code_simp
  have b: "truthy (reasoning ?e)" by (simp add: truthy_def)
  from stripThinking_fail_closed [of ?e] a b show ?thesis by blast
qed

text \<open>
  C3. Constructing an upstream-API error sanitizes its detail map: every string in it, at
  any depth of nested objects and arrays, is replaced by its sanitized form; the sanitized
  form of a URL with well-formed query parameters is the same URL with the value of every
  credential-bearing parameter replaced by \<open>***\<close> and every parameter name kept. In
  particular \<open>https://x/y?api_key=SECRET123\<close> becomes \<open>https://x/y?api_key=***\<close>, not a string
  in which the secret stands for the name.
\<close>

theorem sanitizeDetails_masks_credentials:
  "details (ModelAPIError msg (Some (JObj kvs)) cs) = Some (sanitizeDetails (JObj kvs))
   \<and> strings_of (sanitizeDetails (JObj kvs)) = map sanitizeUrlInString (strings_of (JObj kvs))
   \<and> (plain base \<and> list_all param_ok ps \<longrightarrow>
        sanitizeUrlInString (render_url base ps) = render_url base (mask_params ps))
   \<and> sanitizeUrlInString ''https://x/y?api_key=SECRET123'' = ''https://x/y?api_key=***''
   \<and> sanitizeUrlInString ''https://x/y?api_key=SECRET123'' \<noteq> ''https://x/y?SECRET123=***''"
proof (intro conjI impI)
  show "details (ModelAPIError msg (Some (JObj kvs)) cs) = Some (sanitizeDetails (JObj kvs))"
    by (simp add: ModelAPIError_def)
next
  show "strings_of (sanitizeDetails (JObj kvs)) = map sanitizeUrlInString (strings_of (JObj kvs))"
    using strings_of_sanitize(1) [of "JObj kvs"] by simp
next
  assume "plain base \<and> list_all param_ok ps"
  then show "sanitizeUrlInString (render_url base ps) = render_url base (mask_params ps)"
    using sanitize_query by blast
next
  show e: "sanitizeUrlInString ''https://x/y?api_key=SECRET123'' = ''https://x/y?api_key=***''"
    by code_simp
  show "sanitizeUrlInString ''https://x/y?api_key=SECRET123'' \<noteq> ''https://x/y?SECRET123=***''"
    unfolding e by simp
qed

theorem sanitizeDetails_masks_credentials_witness:
  "plain ''https://x/y''
   \<and> list_all param_ok [(''page'', ''2''), (''API_KEY'', ''SECRET123''), (''q'', ''cat''), (''token'', ''t0k'')]
   \<and> sanitizeUrlInString ''https://x/y?page=2&API_KEY=SECRET123&q=cat&token=t0k''
       = ''https://x/y?page=2&API_KEY=***&q=cat&token=***''
   \<and> details (ModelAPIError ''HTTP 500''
         (Some (JObj [(''status'', JNum 500),
                      (''urls'', JArr [JStr ''https://x/y?key=K1'', JArr [JStr ''https://z?token=K2'']])]))
         None)
       = Some (JObj [(''status'', JNum 500),
                     (''urls'', JArr [JStr ''https://x/y?key=***'', JObj [(''0'', JStr ''https://z?token=***'')]])])"
proof -
  let ?ps = "[(''page'', ''2''), (''API_KEY'', ''SECRET123''), (''q'', ''cat''), (''token'', ''t0k'')]"
  have a: "plain ''https://x/y''" by (simp add: plain_def)
  have b: "list_all param_ok ?ps" by (simp add: param_ok_def plain_def isWhiteSpace_def)
  have c: "render_url ''https://x/y'' ?ps = ''https://x/y?page=2&API_KEY=SECRET123&q=cat&token=t0k''"
    by (simp add: render_url_def)
  have d: "render_url ''https://x/y'' (mask_params ?ps) = ''https://x/y?page=2&API_KEY=***&q=cat&token=***''"
    by code_simp
  have e: "sanitizeUrlInString (render_url ''https://x/y'' ?ps) = render_url ''https://x/y'' (mask_params ?ps)"
    using sanitizeDetails_masks_credentials [of _ _ _ "''https://x/y''" ?ps] a b by blast
  have f: "sanitizeDetails (JObj [(''status'', JNum 500),
                      (''urls'', JArr [JStr ''https://x/y?key=K1'', JArr [JStr ''https://z?token=K2'']])])
           = JObj [(''status'', JNum 500),
                     (''urls'', JArr [JStr ''https://x/y?key=***'', JObj [(''0'', JStr ''https://z?token=***'')]])]"
    by code_simp
  have g: "details (ModelAPIError ''HTTP 500''
         (Some (JObj [(''status'', JNum 500),
                      (''urls'', JArr [JStr ''https://x/y?key=K1'', JArr [JStr ''https://z?token=K2'']])]))
         None)
       = Some (sanitizeDetails (JObj [(''status'', JNum 500),
                      (''urls'', JArr [JStr ''https://x/y?key=K1'', JArr [JStr ''https://z?token=K2'']])]))"
    using sanitizeDetails_masks_credentials by blast
  from a b c d e f g show ?thesis by simp
qed

text \<open>
  C4 (as amended). Let \<open>maxRetries\<close> be the configured retry count when it is at least 1, or
  a count of at least 0 passed for the call in its place. Then \<open>withRetry\<close> calls the
  operation at most \<open>maxRetries + 1\<close> times. An operation whose first call fails with an
  upstream-API error carrying status 400, 401, 403 or 404 is called exactly once and that
  error is rethrown. Every other failure except a timeout (an \<open>AbortError\<close>), on an attempt
  before the last, is followed by a backoff wait of \<open>min(1000 * 2^attempt, 5000)\<close> ms,
  \<open>attempt\<close> counted from 0, and then the next attempt: an operation failing so on its first
  \<open>n\<close> calls (\<open>n \<le> maxRetries\<close>) and succeeding on the next returns the success value, and
  one failing so on all \<open>maxRetries + 1\<close> calls ends with the aggregated upstream-API error.
\<close>

theorem withRetry_contract:
  assumes "(opt_maxRetries opts = Some maxRetries \<and> 0 \<le> maxRetries)
           \<or> (opt_maxRetries opts = None \<and> config_maxRetries config = Some maxRetries
               \<and> 0 < maxRetries)"
  shows "int (attempts (snd (withRetry config opts operation))) \<le> maxRetries + 1
   \<and> (operation 0 = Inl (VisionMCPError MODEL_API_ERROR msg (Some (JObj kvs)) cs)
        \<and> map_of kvs ''status'' = Some (JNum status) \<and> status \<in> {400, 401, 403, 404}
       \<longrightarrow> withRetry config opts operation
             = (Inl (VisionMCPError MODEL_API_ERROR msg (Some (JObj kvs)) cs), [Attempt 0]))
   \<and> ((\<forall>i\<le>k. retryableFailure (operation i)) \<and> int k < maxRetries
       \<longrightarrow> (\<exists>rest. snd (withRetry config opts operation)
                    = failed_attempts 0 k
                      @ Attempt k # Backoff (min (1000 * 2 ^ k) 5000) # Attempt (Suc k) # rest))
   \<and> ((\<forall>i<n. retryableFailure (operation i)) \<and> int n \<le> maxRetries \<and> operation n = Inr v
       \<longrightarrow> withRetry config opts operation = (Inr v, failed_attempts 0 n @ [Attempt n]))
   \<and> ((\<forall>i\<le>n. retryableFailure (operation i)) \<and> int n = maxRetries \<and> operation n = Inl e
       \<longrightarrow> withRetry config opts operation
             = (Inl (exhausted maxRetries (Some e)), failed_attempts 0 n @ [Attempt n]))"
proof -
  from assms have mr: "resolved_maxRetries config opts = maxRetries" and nn: "0 \<le> maxRetries"
    by (auto simp: resolved_maxRetries_def or_number_def)
  have w: "withRetry config opts operation
           = withRetry_loop operation maxRetries (resolved_timeout config opts) 0 None"
    by (simp add: withRetry_def mr)
  show ?thesis
  proof (intro conjI impI)
    have "attempts (snd (withRetry config opts operation)) \<le> nat (maxRetries + 1)"
      using attempts_bound [of operation maxRetries "resolved_timeout config opts" 0 None]
      by (simp add: w)
    with nn show "int (attempts (snd (withRetry config opts operation))) \<le> maxRetries + 1"
      by linarith
  next
    assume a: "operation 0 = Inl (VisionMCPError MODEL_API_ERROR msg (Some (JObj kvs)) cs)
          \<and> map_of kvs ''status'' = Some (JNum status) \<and> status \<in> {400, 401, 403, 404}"
    then have "nonRetryable (VisionMCPError MODEL_API_ERROR msg (Some (JObj kvs)) cs)"
      using status_non_retryable by blast
    with a nn show "withRetry config opts operation
               = (Inl (VisionMCPError MODEL_API_ERROR msg (Some (JObj kvs)) cs), [Attempt 0])"
      using loop_non_retryable [of 0 operation maxRetries]
      by (simp add: w)
  next
    assume "(\<forall>i\<le>k. retryableFailure (operation i)) \<and> int k < maxRetries"
    then show "\<exists>rest. snd (withRetry config opts operation)
                    = failed_attempts 0 k
                      @ Attempt k # Backoff (min (1000 * 2 ^ k) 5000) # Attempt (Suc k) # rest"
      using loop_retry_next [of k operation maxRetries "resolved_timeout config opts"]
      by (simp add: w)
  next
    assume "(\<forall>i<n. retryableFailure (operation i)) \<and> int n \<le> maxRetries \<and> operation n = Inr v"
    then show "withRetry config opts operation = (Inr v, failed_attempts 0 n @ [Attempt n])"
      using loop_success [of n operation maxRetries v]
      by (simp add: w)
  next
    assume "(\<forall>i\<le>n. retryableFailure (operation i)) \<and> int n = maxRetries \<and> operation n = Inl e"
    then show "withRetry config opts operation
               = (Inl (exhausted maxRetries (Some e)), failed_attempts 0 n @ [Attempt n])"
      using loop_exhausted [of n operation maxRetries e]
      by (simp add: w)
  qed
qed

theorem withRetry_contract_witness:
  "withRetry
     \<lparr>model_type = ''openai'', model_name = ''gpt-4o'', baseUrl = ''https://api.openai.com/v1'',
      apiKey = ''sk-test'', config_timeout = Some 60000, config_maxRetries = Some 2,
      thinking_mode = None\<rparr>
     \<lparr>opt_maxRetries = None, opt_timeout = None\<rparr>
     (\<lambda>i. if i < 2 then Inl (NativeError ''Error'' ''socket hang up'' None) else Inr ''A cat'')
   = (Inr ''A cat'', [Attempt 0, Backoff 1000, Attempt 1, Backoff 2000, Attempt 2])
   \<and> withRetry
     \<lparr>model_type = ''openai'', model_name = ''gpt-4o'', baseUrl = ''https://api.openai.com/v1'',
      apiKey = ''sk-test'', config_timeout = Some 60000, config_maxRetries = Some 2,
      thinking_mode = None\<rparr>
     \<lparr>opt_maxRetries = None, opt_timeout = None\<rparr>
     (\<lambda>i. Inl (VisionMCPError MODEL_API_ERROR ''Model API error: Unauthorized''
                  (Some (JObj [(''status'', JNum 401)])) None) :: js_error + string)
   = (Inl (VisionMCPError MODEL_API_ERROR ''Model API error: Unauthorized''
             (Some (JObj [(''status'', JNum 401)])) None), [Attempt 0])"
proof -
  let ?cfg = "\<lparr>model_type = ''openai'', model_name = ''gpt-4o'', baseUrl = ''https://api.openai.com/v1'',
      apiKey = ''sk-test'', config_timeout = Some 60000, config_maxRetries = Some 2,
      thinking_mode = None\<rparr>"
  let ?opts = "\<lparr>opt_maxRetries = None, opt_timeout = None\<rparr>"
  let ?op = "\<lambda>i::nat. if i < 2 then Inl (NativeError ''Error'' ''socket hang up'' None) else Inr ''A cat''"
  let ?e = "VisionMCPError MODEL_API_ERROR ''Model API error: Unauthorized''
                  (Some (JObj [(''status'', JNum 401)])) None"
  let ?op' = "\<lambda>i::nat. Inl ?e :: js_error + string"
  have mr: "(opt_maxRetries ?opts = Some 2 \<and> (0::int) \<le> 2)
           \<or> (opt_maxRetries ?opts = None \<and> config_maxRetries ?cfg = Some 2 \<and> (0::int) < 2)"
    by simp
  have r: "\<forall>i<2. retryableFailure (?op i)"
    by (simp add: retryableFailure_def isAbortError_def nonRetryable_def)
  have s: "?op 2 = Inr ''A cat''" by simp
  have fa: "failed_attempts 0 2 @ [Attempt 2] = [Attempt 0, Backoff 1000, Attempt 1, Backoff 2000, Attempt 2]"
    by code_simp
  have one: "withRetry ?cfg ?opts ?op = (Inr ''A cat'', failed_attempts 0 2 @ [Attempt 2])"
    using withRetry_contract [where opts = ?opts and maxRetries = 2 and config = ?cfg
        and operation = ?op and n = 2 and v = "''A cat''", OF mr] r s by simp
  have st: "map_of [(''status'', JNum 401)] ''status'' = Some (JNum 401)" by simp
  have two: "withRetry ?cfg ?opts ?op' = (Inl ?e, [Attempt 0])"
    using withRetry_contract [where opts = ?opts and maxRetries = 2 and config = ?cfg
        and operation = ?op' and msg = "''Model API error: Unauthorized''"
        and kvs = "[(''status'', JNum 401)]" and cs = None and status = 401, OF mr] st by simp
  from one two fa show ?thesis by simp
qed

text \<open>
  The claim as first stated fails for a timeout and for a configured count of 0. With
  \<open>maxRetries = 2\<close>, an operation whose first attempt is cancelled by its timeout and which
  would succeed on the second: the failure is not one of the four statuses and the attempt
  is not the last, yet no backoff wait and no further attempt follows, and the success
  value is not returned. With \<open>maxRetries = 0\<close> configured, \<open>config.maxRetries || 2\<close> is 2: an
  operation that always fails is called three times, not once.
\<close>

theorem withRetry_backoff_counterexample:
  "\<not> nonRetryable (NativeError ''AbortError'' ''This operation was aborted'' None)
   \<and> withRetry
     \<lparr>model_type = ''openai'', model_name = ''gpt-4o'', baseUrl = ''https://api.openai.com/v1'',
      apiKey = ''sk-test'', config_timeout = Some 60000, config_maxRetries = Some 2,
      thinking_mode = None\<rparr>
     \<lparr>opt_maxRetries = None, opt_timeout = None\<rparr>
     (\<lambda>i. if i = 0 then Inl (NativeError ''AbortError'' ''This operation was aborted'' None)
          else Inr ''A cat'')
   = (Inl (VisionMCPError TIMEOUT_ERROR ''Request timeout: Request timed out after 60000ms'' None None),
      [Attempt 0])
   \<and> snd (withRetry
     \<lparr>model_type = ''openai'', model_name = ''gpt-4o'', baseUrl = ''https://api.openai.com/v1'',
      apiKey = ''sk-test'', config_timeout = Some 60000, config_maxRetries = Some 0,
      thinking_mode = None\<rparr>
     \<lparr>opt_maxRetries = None, opt_timeout = None\<rparr>
     (\<lambda>i. Inl (NativeError ''Error'' ''socket hang up'' None) :: js_error + string))
   = [Attempt 0, Backoff 1000, Attempt 1, Backoff 2000, Attempt 2]
   \<and> attempts [Attempt 0, Backoff 1000, Attempt 1, Backoff 2000, Attempt 2] = 3"
proof -
  let ?cfg = "\<lparr>model_type = ''openai'', model_name = ''gpt-4o'', baseUrl = ''https://api.openai.com/v1'',
      apiKey = ''sk-test'', config_timeout = Some 60000, config_maxRetries = Some 2,
      thinking_mode = None\<rparr>"
  let ?zero = "\<lparr>model_type = ''openai'', model_name = ''gpt-4o'', baseUrl = ''https://api.openai.com/v1'',
      apiKey = ''sk-test'', config_timeout = Some 60000, config_maxRetries = Some 0,
      thinking_mode = None\<rparr>"
  let ?opts = "\<lparr>opt_maxRetries = None, opt_timeout = None\<rparr>"
  let ?op = "\<lambda>i::nat. if i = 0 then Inl (NativeError ''AbortError'' ''This operation was aborted'' None)
          else Inr ''A cat''"
  let ?e = "NativeError ''Error'' ''socket hang up'' None"
  let ?fails = "\<lambda>i::nat. Inl ?e :: js_error + string"
  have a: "\<not> nonRetryable (NativeError ''AbortError'' ''This operation was aborted'' None)"
    by (simp add: nonRetryable_def)
  have mr: "resolved_maxRetries ?cfg ?opts = 2"
    by (simp add: resolved_maxRetries_def or_number_def)
  have t: "TimeoutError (''Request timed out after '' @ show_int (resolved_timeout ?cfg ?opts) @ ''ms'') None None
           = VisionMCPError TIMEOUT_ERROR ''Request timeout: Request timed out after 60000ms'' None None"
    by (simp add: TimeoutError_def resolved_timeout_def or_number_def show_int_def show_nat.simps
          char_of_eq_iff)
  have "withRetry_loop ?op 2 (resolved_timeout ?cfg ?opts) 0 None
        = (Inl (TimeoutError (''Request timed out after '' @ show_int (resolved_timeout ?cfg ?opts) @ ''ms'') None None),
           failed_attempts 0 0 @ [Attempt 0])"
    by (rule loop_timeout [of 0 ?op 2 "NativeError ''AbortError'' ''This operation was aborted'' None"])
       (simp_all add: isAbortError_def)
  with mr t have one: "withRetry ?cfg ?opts ?op
      = (Inl (VisionMCPError TIMEOUT_ERROR ''Request timeout: Request timed out after 60000ms'' None None),
         [Attempt 0])"
    by (simp add: withRetry_def)
  have mrz: "resolved_maxRetries ?zero ?opts = 2"
    by (simp add: resolved_maxRetries_def or_number_def)
  have fa: "failed_attempts 0 2 @ [Attempt 2] = [Attempt 0, Backoff 1000, Attempt 1, Backoff 2000, Attempt 2]"
    by code_simp
  have "withRetry_loop ?fails 2 (resolved_timeout ?zero ?opts) 0 None
        = (Inl (exhausted 2 (Some ?e)), failed_attempts 0 2 @ [Attempt 2])"
    by (rule loop_exhausted [of 2 ?fails 2 ?e])
       (simp_all add: retryableFailure_def isAbortError_def nonRetryable_def)
  with mrz fa have two: "snd (withRetry ?zero ?opts ?fails)
      = [Attempt 0, Backoff 1000, Attempt 1, Backoff 2000, Attempt 2]"
    by (simp add: withRetry_def)
  have three: "attempts [Attempt 0, Backoff 1000, Attempt 1, Backoff 2000, Attempt 2] = 3"
    by (simp add: attempts_def)
  from a one two three show ?thesis by simp
qed

text \<open>
  C5 (as amended). A timeout that reaches the engine as the \<open>AbortError\<close> of the cancelled
  attempt is not retried. When the operation of an attempt that the engine makes, the last
  or any before it, throws an \<open>AbortError\<close> (the attempts before it having failed in ways that
  are retried), the engine performs none of the remaining attempts and fails at once with
  a Timeout failure, \<open>Request timed out after <timeout>ms\<close>. An operation that catches the
  abort and throws another error in its place is not the subject of this statement: the
  engine meets that error, not a timeout.
\<close>

theorem withRetry_timeout_immediate:
  assumes "\<forall>i<n. retryableFailure (operation i)"
    and "int n \<le> resolved_maxRetries config opts"
    and "operation n = Inl e" and "isAbortError e"
  shows "withRetry config opts operation
           = (Inl (TimeoutError (''Request timed out after '' @ show_int (resolved_timeout config opts) @ ''ms'')
                     None None),
              failed_attempts 0 n @ [Attempt n])
         \<and> attempts (snd (withRetry config opts operation)) = n + 1"
proof -
  have eq: "withRetry config opts operation
           = (Inl (TimeoutError (''Request timed out after '' @ show_int (resolved_timeout config opts) @ ''ms'')
                     None None),
              failed_attempts 0 n @ [Attempt n])"
    using loop_timeout [OF assms(1,2,3,4)] by (simp add: withRetry_def)
  then show ?thesis using attempts_failed_attempts [of 0 n] by simp
qed

theorem withRetry_timeout_immediate_witness:
  "withRetry
     \<lparr>model_type = ''glm'', model_name = ''glm-4.6v'', baseUrl = ''https://open.bigmodel.cn/api/paas/v4'',
      apiKey = ''a.b'', config_timeout = Some 60000, config_maxRetries = Some 2,
      thinking_mode = Some ''enabled''\<rparr>
     \<lparr>opt_maxRetries = None, opt_timeout = None\<rparr>
     (\<lambda>i. if i = 0 then Inl (NativeError ''Error'' ''socket hang up'' None)
          else if i = 1 then Inl (NativeError ''AbortError'' ''This operation was aborted'' None)
          else Inr ''A cat'')
   = (Inl (VisionMCPError TIMEOUT_ERROR ''Request timeout: Request timed out after 60000ms'' None None),
      [Attempt 0, Backoff 1000, Attempt 1])"
proof -
  let ?cfg = "\<lparr>model_type = ''glm'', model_name = ''glm-4.6v'', baseUrl = ''https://open.bigmodel.cn/api/paas/v4'',
      apiKey = ''a.b'', config_timeout = Some 60000, config_maxRetries = Some 2,
      thinking_mode = Some ''enabled''\<rparr>"
  let ?opts = "\<lparr>opt_maxRetries = None, opt_timeout = None\<rparr>"
  let ?op = "\<lambda>i::nat. if i = 0 then Inl (NativeError ''Error'' ''socket hang up'' None)
          else if i = 1 then Inl (NativeError ''AbortError'' ''This operation was aborted'' None)
          else Inr ''A cat''"
  have mr: "int 1 \<le> resolved_maxRetries ?cfg ?opts"
    by (simp add: resolved_maxRetries_def or_number_def)
  have r: "\<forall>i<1. retryableFailure (?op i)"
    by (simp add: retryableFailure_def isAbortError_def nonRetryable_def)
  have f: "?op 1 = Inl (NativeError ''AbortError'' ''This operation was aborted'' None)" by simp
  have ab: "isAbortError (NativeError ''AbortError'' ''This operation was aborted'' None)"
    by (simp add: isAbortError_def)
  have t: "TimeoutError (''Request timed out after '' @ show_int (resolved_timeout ?cfg ?opts) @ ''ms'') None None
           = VisionMCPError TIMEOUT_ERROR ''Request timeout: Request timed out after 60000ms'' None None"
    by (simp add: TimeoutError_def resolved_timeout_def or_number_def show_int_def show_nat.simps
          char_of_eq_iff)
  have fa: "failed_attempts 0 1 @ [Attempt 1] = [Attempt 0, Backoff 1000, Attempt 1]"
    by code_simp
  from withRetry_timeout_immediate [OF r mr f ab] t fa show ?thesis by simp
qed

text \<open>
  The claim as first stated fails: with one retry allowed, the first attempt is cancelled
  by its timeout and the second would succeed, yet the engine makes no second attempt and
  the Timeout failure surfaces from an attempt that is not the last.
\<close>

theorem withRetry_timeout_retry_counterexample:
  "withRetry
     \<lparr>model_type = ''glm'', model_name = ''glm-4.6v'', baseUrl = ''https://open.bigmodel.cn/api/paas/v4'',
      apiKey = ''a.b'', config_timeout = Some 60000, config_maxRetries = Some 1,
      thinking_mode = Some ''enabled''\<rparr>
     \<lparr>opt_maxRetries = None, opt_timeout = None\<rparr>
     (\<lambda>i. if i = 0 then Inl (NativeError ''AbortError'' ''This operation was aborted'' None)
          else Inr ''A cat'')
   = (Inl (VisionMCPError TIMEOUT_ERROR ''Request timeout: Request timed out after 60000ms'' None None),
      [Attempt 0])"
proof -
  let ?cfg = "\<lparr>model_type = ''glm'', model_name = ''glm-4.6v'', baseUrl = ''https://open.bigmodel.cn/api/paas/v4'',
      apiKey = ''a.b'', config_timeout = Some 60000, config_maxRetries = Some 1,
      thinking_mode = Some ''enabled''\<rparr>"
  let ?opts = "\<lparr>opt_maxRetries = None, opt_timeout = None\<rparr>"
  let ?op = "\<lambda>i::nat. if i = 0 then Inl (NativeError ''AbortError'' ''This operation was aborted'' None)
          else Inr ''A cat''"
  have mr: "resolved_maxRetries ?cfg ?opts = 1"
    by (simp add: resolved_maxRetries_def or_number_def)
  have t: "TimeoutError (''Request timed out after '' @ show_int (resolved_timeout ?cfg ?opts) @ ''ms'') None None
           = VisionMCPError TIMEOUT_ERROR ''Request timeout: Request timed out after 60000ms'' None None"
    by (simp add: TimeoutError_def resolved_timeout_def or_number_def show_int_def show_nat.simps
          char_of_eq_iff)
  have "withRetry_loop ?op 1 (resolved_timeout ?cfg ?opts) 0 None
        = (Inl (TimeoutError (''Request timed out after '' @ show_int (resolved_timeout ?cfg ?opts) @ ''ms'') None None),
           failed_attempts 0 0 @ [Attempt 0])"
    by (rule loop_timeout [of 0 ?op 1 "NativeError ''AbortError'' ''This operation was aborted'' None"])
       (simp_all add: isAbortError_def)
  with mr t show ?thesis by (simp add: withRetry_def)
qed

text \<open>
  C6. What the code does for an http(s) URL that parses and whose path does not end in an
  allowed extension. With strict validation disabled, normalization succeeds with two
  warnings and returns the URL itself as the canonical form, as the claim says. With
  strict validation enabled (the default), the \<open>InvalidInputError\<close> thrown for the missing
  extension is caught by the \<open>catch\<close> block of \<open>normalizeUrlInput\<close> itself, which lets only
  a \<open>TypeError\<close> through as InvalidInput: normalization fails with an error of kind
  IMAGE_LOAD_ERROR whose cause is the InvalidInput error, not with an InvalidInput error.
\<close>

theorem normalizeUrlInput_extension_check:
  assumes "detectInputType input = Url" and "parseURL input = Some url"
    and "startsWith (protocol url) ''http''" and "\<not> isImageUrl parseURL input"
  shows "(env ''VISION_STRICT_URL_VALIDATION'' \<noteq> Some ''false'' \<longrightarrow>
            normalizeImageInput parseURL readFile env input
            = Inl (VisionMCPError IMAGE_LOAD_ERROR ''Failed to load image: Failed to process URL input''
                     (Some (JObj [(''input'', JStr input)]))
                     (Some (VisionMCPError INVALID_INPUT
                        ''Invalid input: URL does not have a supported image extension (allowed: .jpg, .jpeg, .png, .webp)''
                        (Some (JObj [(''url'', JStr input)])) None))))
         \<and> (env ''VISION_STRICT_URL_VALIDATION'' = Some ''false'' \<longrightarrow>
            normalizeImageInput parseURL readFile env input
            = Inr \<lparr>type = Url, originalInput = input, dataUrl = input, mimeType = ''image/*''\<rparr>)
         \<and> normalizeUrlInput parseURL input False
            = (Inr \<lparr>type = Url, originalInput = input, dataUrl = input, mimeType = ''image/*''\<rparr>,
               [''URL does not appear to point to an image file'',
                ''Set VISION_STRICT_URL_VALIDATION=true to enforce strict validation''])"
proof -
  have strict: "normalizeUrlInput parseURL input True
        = (Inl (VisionMCPError IMAGE_LOAD_ERROR ''Failed to load image: Failed to process URL input''
                     (Some (JObj [(''input'', JStr input)]))
                     (Some (VisionMCPError INVALID_INPUT
                        ''Invalid input: URL does not have a supported image extension (allowed: .jpg, .jpeg, .png, .webp)''
                        (Some (JObj [(''url'', JStr input)])) None))), [])"
    using assms(2,3,4)
    by (simp add: normalizeUrlInput_def normalizeUrlInput_try_def isTypeError_def InvalidInputError_def
          ImageLoadError_def EXT_TO_MIME_TYPE_def)
  have lax: "normalizeUrlInput parseURL input False
        = (Inr \<lparr>type = Url, originalInput = input, dataUrl = input, mimeType = ''image/*''\<rparr>,
           [''URL does not appear to point to an image file'',
            ''Set VISION_STRICT_URL_VALIDATION=true to enforce strict validation''])"
    using assms(2,3,4) by (simp add: normalizeUrlInput_def normalizeUrlInput_try_def)
  show ?thesis
    using strict lax assms(1) by (simp add: normalizeImageInput_def)
qed

theorem normalizeUrlInput_extension_check_witness:
  "normalizeImageInput
     (\<lambda>s. if s = ''https://example.com/page'' then Some \<lparr>protocol = ''https:'', pathname = ''/page''\<rparr> else None)
     (\<lambda>p. Inl (NativeError ''Error'' ''no such file'' (Some ''ENOENT'')))
     (\<lambda>v. None)
     ''https://example.com/page''
   = Inl (VisionMCPError IMAGE_LOAD_ERROR ''Failed to load image: Failed to process URL input''
            (Some (JObj [(''input'', JStr ''https://example.com/page'')]))
            (Some (VisionMCPError INVALID_INPUT
               ''Invalid input: URL does not have a supported image extension (allowed: .jpg, .jpeg, .png, .webp)''
               (Some (JObj [(''url'', JStr ''https://example.com/page'')])) None)))
   \<and> normalizeImageInput
     (\<lambda>s. if s = ''https://example.com/page'' then Some \<lparr>protocol = ''https:'', pathname = ''/page''\<rparr> else None)
     (\<lambda>p. Inl (NativeError ''Error'' ''no such file'' (Some ''ENOENT'')))
     (\<lambda>v. if v = ''VISION_STRICT_URL_VALIDATION'' then Some ''false'' else None)
     ''https://example.com/page''
   = Inr \<lparr>type = Url, originalInput = ''https://example.com/page'',
          dataUrl = ''https://example.com/page'', mimeType = ''image/*''\<rparr>"
proof -
  let ?parse = "\<lambda>s. if s = ''https://example.com/page''
                    then Some \<lparr>protocol = ''https:'', pathname = ''/page''\<rparr> else None"
  let ?input = "''https://example.com/page''"
  have a: "detectInputType ?input = Url" by (simp add: detectInputType_def startsWith_def)
  have b: "?parse ?input = Some \<lparr>protocol = ''https:'', pathname = ''/page''\<rparr>" by simp
  have c: "startsWith (protocol \<lparr>protocol = ''https:'', pathname = ''/page''\<rparr>) ''http''"
    by (simp add: startsWith_def)
  have d: "\<not> isImageUrl ?parse ?input"
    by (simp add: isImageUrl_def EXT_TO_MIME_TYPE_def endsWith_def toLowerCase_def
          toLowerCase_char_def suffix_def append_eq_Cons_conv)
  note t = normalizeUrlInput_extension_check [OF a b c d]
  have "(\<lambda>v::string. None :: string option) ''VISION_STRICT_URL_VALIDATION'' \<noteq> Some ''false''" by simp
  moreover have "(\<lambda>v. if v = ''VISION_STRICT_URL_VALIDATION'' then Some ''false'' else None)
                   ''VISION_STRICT_URL_VALIDATION'' = Some ''false''" by simp
  ultimately show ?thesis using t [of "\<lambda>v. None"] t [of "\<lambda>v. if v = ''VISION_STRICT_URL_VALIDATION'' then Some ''false'' else None"]
    by blast
qed

text \<open>
  C7. What the code does for a data URL or a local path that normalization rejects, an
  unsupported MIME type or extension included: the inner \<open>InvalidInputError\<close> that names the
  allowed set is caught by the normalizer's own \<open>catch\<close> block and wrapped. Every failure
  of normalizing such an input is an error of kind IMAGE_LOAD_ERROR whose details hold
  only the input (\<open>input\<close> for a data URL, \<open>path\<close> for a local path); none is an InvalidInput
  error and none names the allowed set in its details.
\<close>

theorem unsupported_type_failure_kind:
  assumes "detectInputType input \<noteq> Url"
    and "normalizeImageInput parseURL readFile env input = Inl e"
  shows "code e = IMAGE_LOAD_ERROR
         \<and> (details e = Some (JObj [(''input'', JStr input)])
            \<or> details e = Some (JObj [(''path'', JStr input)]))"
proof (cases "detectInputType input")
  case Url
  with assms(1) show ?thesis by simp
next
  case Base64
  then show ?thesis using assms(2)
    by (auto simp: normalizeImageInput_def normalizeBase64Input_def ImageLoadError_def
             split: sum.splits js_error.splits)
next
  case Local
  then show ?thesis using assms(2)
    by (auto simp: normalizeImageInput_def normalizeLocalInput_def ImageLoadError_def
             split: sum.splits js_error.splits if_splits)
qed

theorem unsupported_type_failure_kind_witness:
  "normalizeImageInput (\<lambda>s. None) (\<lambda>p. Inr [0x47, 0x49, 0x46]) (\<lambda>v. None) ''data:image/gif;base64,R0lG''
   = Inl (VisionMCPError IMAGE_LOAD_ERROR ''Failed to load image: Invalid base64 data URL''
            (Some (JObj [(''input'', JStr ''data:image/gif;base64,R0lG'')]))
            (Some (VisionMCPError INVALID_INPUT ''Invalid input: Unsupported image MIME type: image/gif''
               (Some (JObj [(''supportedTypes'',
                   JArr [JStr ''image/jpeg'', JStr ''image/jpg'', JStr ''image/png'', JStr ''image/webp''])]))
               None)))
   \<and> normalizeImageInput (\<lambda>s. None) (\<lambda>p. Inr [0x47, 0x49, 0x46]) (\<lambda>v. None) ''photo.gif''
   = Inl (VisionMCPError IMAGE_LOAD_ERROR ''Failed to load image: Failed to read local file''
            (Some (JObj [(''path'', JStr ''photo.gif'')]))
            (Some (VisionMCPError INVALID_INPUT ''Invalid input: Unsupported file extension: .gif''
               (Some (JObj [(''filename'', JStr ''photo.gif''),
                            (''supportedExtensions'',
                             JArr [JStr ''.jpg'', JStr ''.jpeg'', JStr ''.png'', JStr ''.webp''])]))
               None)))
   \<and> code (VisionMCPError IMAGE_LOAD_ERROR ''Failed to load image: Failed to read local file''
            (Some (JObj [(''path'', JStr ''photo.gif'')]))
            (Some (VisionMCPError INVALID_INPUT ''Invalid input: Unsupported file extension: .gif''
               (Some (JObj [(''filename'', JStr ''photo.gif''),
                            (''supportedExtensions'',
                             JArr [JStr ''.jpg'', JStr ''.jpeg'', JStr ''.png'', JStr ''.webp''])]))
               None))) = IMAGE_LOAD_ERROR"
proof -
  let ?rf = "\<lambda>p::string. Inr [0x47, 0x49, 0x46] :: js_error + byte list"
  have a: "normalizeImageInput (\<lambda>s. None) ?rf (\<lambda>v. None) ''data:image/gif;base64,R0lG''
   = Inl (VisionMCPError IMAGE_LOAD_ERROR ''Failed to load image: Invalid base64 data URL''
            (Some (JObj [(''input'', JStr ''data:image/gif;base64,R0lG'')]))
            (Some (VisionMCPError INVALID_INPUT ''Invalid input: Unsupported image MIME type: image/gif''
               (Some (JObj [(''supportedTypes'',
                   JArr [JStr ''image/jpeg'', JStr ''image/jpg'', JStr ''image/png'', JStr ''image/webp''])]))
               None)))"
    by code_simp
  have b: "normalizeImageInput (\<lambda>s. None) ?rf (\<lambda>v. None) ''photo.gif''
   = Inl (VisionMCPError IMAGE_LOAD_ERROR ''Failed to load image: Failed to read local file''
            (Some (JObj [(''path'', JStr ''photo.gif'')]))
            (Some (VisionMCPError INVALID_INPUT ''Invalid input: Unsupported file extension: .gif''
               (Some (JObj [(''filename'', JStr ''photo.gif''),
                            (''supportedExtensions'',
                             JArr [JStr ''.jpg'', JStr ''.jpeg'', JStr ''.png'', JStr ''.webp''])]))
               None)))"
    by code_simp
  have c: "detectInputType ''photo.gif'' \<noteq> Url" by (simp add: detectInputType_def startsWith_def)
  from unsupported_type_failure_kind [OF c b] a b show ?thesis by simp
qed

text \<open>
  C8, for file names of code units up to U+00FF, which are all that the strings here
  hold. For every extension of the table (each mapped to a supported MIME type), every
  such file name that ends in it in any letter case, and every non-empty byte sequence
  read from that file, \<open>normalizeLocalInput\<close> returns a data URL
  \<open>data:<mime>;base64,<payload>\<close> with the MIME type mapped from the extension; the data-URL
  parser splits it into that MIME type and the payload, and the payload decodes back to
  exactly the bytes read.

  On these names lower-casing keeps the place of every character, so the index of the last
  dot, which \<open>getMimeTypeFromFileName\<close> takes on the name as given and applies to the
  lower-cased name, cuts the extension off. Beyond them it need not: U+0130 is lower-cased
  to two code units, the cut then falls one unit early, the extension found is not in the
  table and the call fails with an image-load error. Such a name is outside these strings,
  and the theorem says nothing about it.
\<close>

theorem normalizeLocalInput_roundtrip:
  assumes "readFile input = Inr bytes" and "bytes \<noteq> []"
    and "map_of EXT_TO_MIME_TYPE ext = Some mime" and "endsWith (toLowerCase input) ext"
  shows "normalizeLocalInput readFile input
           = Inr \<lparr>type = Local, originalInput = input,
                  dataUrl = ''data:'' @ mime @ '';base64,'' @ base64_encode bytes, mimeType = mime\<rparr>
         \<and> parseDataUrl (''data:'' @ mime @ '';base64,'' @ base64_encode bytes)
           = Inr \<lparr>parsed_mimeType = mime, parsed_data = base64_encode bytes\<rparr>
         \<and> base64_decode (base64_encode bytes) = Some bytes
         \<and> mime \<in> set SUPPORTED_MIME_TYPES"
proof (intro conjI)
  show "normalizeLocalInput readFile input
           = Inr \<lparr>type = Local, originalInput = input,
                  dataUrl = ''data:'' @ mime @ '';base64,'' @ base64_encode bytes, mimeType = mime\<rparr>"
    using assms by (rule normalizeLocalInput_ok)
next
  have "base64_encode bytes \<noteq> []" using assms(2) by (simp add: base64_encode_Nil_iff)
  then show "parseDataUrl (''data:'' @ mime @ '';base64,'' @ base64_encode bytes)
           = Inr \<lparr>parsed_mimeType = mime, parsed_data = base64_encode bytes\<rparr>"
    using parseDataUrl_built [OF mime_values [OF assms(3)]] by blast
next
  show "base64_decode (base64_encode bytes) = Some bytes" by (rule base64_roundtrip)
next
  show "mime \<in> set SUPPORTED_MIME_TYPES"
    using mime_values [OF assms(3)] by (auto simp: SUPPORTED_MIME_TYPES_def)
qed

theorem normalizeLocalInput_roundtrip_witness:
  "normalizeLocalInput (\<lambda>p. Inr [0x89, 0x50, 0x4E, 0x47]) ''/tmp/Cat.PNG''
     = Inr \<lparr>type = Local, originalInput = ''/tmp/Cat.PNG'',
            dataUrl = ''data:image/png;base64,iVBORw=='', mimeType = ''image/png''\<rparr>
   \<and> parseDataUrl ''data:image/png;base64,iVBORw==''
     = Inr \<lparr>parsed_mimeType = ''image/png'', parsed_data = ''iVBORw==''\<rparr>
   \<and> base64_decode ''iVBORw=='' = Some [0x89, 0x50, 0x4E, 0x47]"
proof -
  let ?rf = "\<lambda>p::string. Inr [0x89, 0x50, 0x4E, 0x47] :: js_error + byte list"
  have a: "?rf ''/tmp/Cat.PNG'' = Inr [0x89, 0x50, 0x4E, 0x47]" by simp
  have b: "[0x89, 0x50, 0x4E, 0x47] \<noteq> ([] :: byte list)" by simp
  have c: "map_of EXT_TO_MIME_TYPE ''.png'' = Some ''image/png''" by (simp add: EXT_TO_MIME_TYPE_def)
  have d: "endsWith (toLowerCase ''/tmp/Cat.PNG'') ''.png''"
    by (simp add: endsWith_def toLowerCase_def toLowerCase_char_def suffix_def char_of_eq_iff)
  have e: "base64_encode [0x89, 0x50, 0x4E, 0x47 :: byte] = ''iVBORw==''"
    by (simp add: base64_char_def char_of_eq_iff)
  have "normalizeLocalInput ?rf ''/tmp/Cat.PNG''
           = Inr \<lparr>type = Local, originalInput = ''/tmp/Cat.PNG'',
                  dataUrl = ''data:'' @ ''image/png'' @ '';base64,'' @ base64_encode [0x89, 0x50, 0x4E, 0x47],
                  mimeType = ''image/png''\<rparr>
         \<and> parseDataUrl (''data:'' @ ''image/png'' @ '';base64,'' @ base64_encode [0x89, 0x50, 0x4E, 0x47])
           = Inr \<lparr>parsed_mimeType = ''image/png'', parsed_data = base64_encode [0x89, 0x50, 0x4E, 0x47]\<rparr>
         \<and> base64_decode (base64_encode [0x89, 0x50, 0x4E, 0x47]) = Some [0x89, 0x50, 0x4E, 0x47]
         \<and> ''image/png'' \<in> set SUPPORTED_MIME_TYPES"
    using a b c d by (rule normalizeLocalInput_roundtrip)
  with e show ?thesis by simp
qed

text \<open>
  C10. For every provider with a key-format validator, a key the validator rejects does
  not make configuration loading fail: \<open>loadModelConfig\<close> passes the validator's message to
  \<open>logger.warn\<close> and returns the complete configuration, which holds that key.
\<close>

theorem loadModelConfig_malformed_key:
  assumes "env ''VISION_MODEL_TYPE'' = Some ty" and "ty \<noteq> []"
    and "map_of reg ty = Some provider"
    and "env ''VISION_API_KEY'' = Some key" and "key \<noteq> []"
    and "validateApiKey provider = Some validate" and "validate key \<noteq> VBool True"
  shows "loadModelConfig reg env
         = (Inr \<lparr>model_type = ty,
                  model_name = or_else (env ''VISION_MODEL_NAME'') (default_modelName (defaults provider)),
                  baseUrl = stripTrailingSlash
                              (or_else (env ''VISION_API_BASE_URL'') (default_baseUrl (defaults provider))),
                  apiKey = key,
                  config_timeout =
                    (if or_else (env ''VISION_API_TIMEOUT'') [] \<noteq> []
                     then parseInt (or_else (env ''VISION_API_TIMEOUT'') [])
                     else Some (default_timeout (defaults provider))),
                  config_maxRetries =
                    (if or_else (env ''VISION_MAX_RETRIES'') [] \<noteq> []
                     then parseInt (or_else (env ''VISION_MAX_RETRIES'') [])
                     else Some (default_maxRetries (defaults provider))),
                  thinking_mode = (if enableThinking provider = Some True then Some ''enabled'' else None)\<rparr>,
            [warning_text (validate key)])"
  using assms by (simp add: loadModelConfig_def or_else_def Let_def)

theorem loadModelConfig_malformed_key_witness:
  "loadModelConfig builtin_registry
     (\<lambda>v. if v = ''VISION_MODEL_TYPE'' then Some ''glm''
          else if v = ''VISION_API_KEY'' then Some ''key-without-dot'' else None)
   = (Inr \<lparr>model_type = ''glm'', model_name = ''glm-4.6v'',
            baseUrl = ''https://open.bigmodel.cn/api/paas/v4'', apiKey = ''key-without-dot'',
            config_timeout = Some 60000, config_maxRetries = Some 2,
            thinking_mode = Some ''enabled''\<rparr>,
      [''GLM API Key should contain a dot (.)''])"
proof -
  let ?env = "\<lambda>v. if v = ''VISION_MODEL_TYPE'' then Some ''glm''
          else if v = ''VISION_API_KEY'' then Some ''key-without-dot'' else None"
  let ?validate = "\<lambda>apiKey. if \<not> includes_str apiKey ''.''
                      then VMessage ''GLM API Key should contain a dot (.)'' else VBool True"
  let ?glm = "\<lparr>provider_type = ''glm'', displayName = ''GLM-4.6V'',
         defaults = \<lparr>default_baseUrl = ''https://open.bigmodel.cn/api/paas/v4'',
                     default_modelName = ''glm-4.6v'', default_timeout = 60000, default_maxRetries = 2\<rparr>,
         validateApiKey = Some ?validate,
         enableThinking = Some True\<rparr>"
  have a: "?env ''VISION_MODEL_TYPE'' = Some ''glm''" by simp
  have b: "''glm'' \<noteq> []" by simp
  have c: "map_of builtin_registry ''glm'' = Some ?glm" by (simp add: builtin_registry_def)
  have d: "?env ''VISION_API_KEY'' = Some ''key-without-dot''" by simp
  have e: "''key-without-dot'' \<noteq> []" by simp
  have f: "validateApiKey ?glm = Some ?validate" by simp
  have g: "?validate ''key-without-dot'' \<noteq> VBool True" by simp
  from loadModelConfig_malformed_key [OF a b c d e f g] show ?thesis
    by (simp add: or_else_def stripTrailingSlash_def warning_text_def)
qed

text \<open>
  C9. Any input that does not start with \<open>http://\<close> or \<open>https://\<close> and does not match the
  data-URL pattern (starting with \<open>data:image/\<close> and containing \<open>;base64,\<close>) is classified
  as LOCAL by \<open>detectInputType\<close>.
\<close>

theorem detectInputType_local:
  assumes "\<not> startsWith input ''http://''"
    and "\<not> startsWith input ''https://''"
    and "\<not> (startsWith input ''data:image/'' \<and> includes_str input '';base64,'')"
  shows "detectInputType input = Local"
  using assms by (simp add: detectInputType_def)

theorem detectInputType_local_witness:
  "\<not> startsWith ''/tmp/cat.png'' ''http://''
   \<and> \<not> startsWith ''/tmp/cat.png'' ''https://''
   \<and> \<not> (startsWith ''/tmp/cat.png'' ''data:image/'' \<and> includes_str ''/tmp/cat.png'' '';base64,'')
   \<and> detectInputType ''/tmp/cat.png'' = Local"
proof -
  have a: "\<not> startsWith ''/tmp/cat.png'' ''http://''" by (simp add: startsWith_def)
  have b: "\<not> startsWith ''/tmp/cat.png'' ''https://''" by (simp add: startsWith_def)
  have c: "\<not> (startsWith ''/tmp/cat.png'' ''data:image/'' \<and> includes_str ''/tmp/cat.png'' '';base64,'')"
    by (simp add: startsWith_def)
  from detectInputType_local [OF a b c] a b c show ?thesis by simp
qed

end
